theory Spec2Isabelle
  imports Complex_Main
begin

section \<open>Errors\<close>

text \<open>
  The exceptions that \<^verbatim>\<open>pymks/mks_localization_model.py\<close> raises or lets through.
  \<open>RuntimeError\<close> and \<open>AttributeError\<close> carry their message; \<open>ValueError\<close> is what
  numpy raises for a reshape or an assignment whose shapes do not fit, \<open>IndexError\<close> what
  Python raises for \<^verbatim>\<open>t[-1]\<close> and \<^verbatim>\<open>t[0]\<close> on an empty tuple or \<^verbatim>\<open>A[0]\<close> on an empty axis,
  and \<open>LinAlgError\<close> what scipy's solver raises.
\<close>

datatype error =
    RuntimeError string
  | AttributeError string
  | ValueError
  | IndexError
  | LinAlgError

section \<open>numpy arrays\<close>

text \<open>
  An array is its shape and its elements in row-major (C) order, which is the order
  \<^verbatim>\<open>reshape\<close> keeps.
\<close>

record 'a ndarray =
  shape :: "nat list"
  data :: "'a list"

definition ndim :: "'a ndarray \<Rightarrow> nat" where
  "ndim X = length (shape X)"

definition wf_array :: "'a ndarray \<Rightarrow> bool" where
  "wf_array X = (length (data X) = prod_list (shape X))"

text \<open>\<^verbatim>\<open>X.reshape(new_shape)\<close>: numpy refuses a shape with another number of elements.
  A shape is a tuple of lengths; numpy's placeholder \<open>-1\<close> for a length to be inferred
  is not part of the model.\<close>

definition reshape :: "nat list \<Rightarrow> 'a ndarray \<Rightarrow> error + 'a ndarray" where
  "reshape new_shape X =
     (if prod_list new_shape = prod_list (shape X)
      then Inr (X\<lparr>shape := new_shape\<rparr>)
      else Inl ValueError)"

text \<open>The row-major offset of a multi-index, and the indices that are in range.\<close>

fun ravel :: "nat list \<Rightarrow> nat list \<Rightarrow> nat" where
  "ravel (n # ns) (i # js) = i * prod_list ns + ravel ns js"
| "ravel _ _ = 0"

definition valid_index :: "nat list \<Rightarrow> nat list \<Rightarrow> bool" where
  "valid_index shp idx = list_all2 (<) idx shp"

definition item :: "'a ndarray \<Rightarrow> nat list \<Rightarrow> 'a" where
  "item A idx = data A ! ravel (shape A) idx"

definition setitem :: "'a ndarray \<Rightarrow> nat list \<Rightarrow> 'a \<Rightarrow> 'a ndarray" where
  "setitem A idx v = A\<lparr>data := (data A)[ravel (shape A) idx := v]\<rparr>"

text \<open>\<^verbatim>\<open>np.zeros(shp)\<close> and \<^verbatim>\<open>np.ndindex(shp)\<close> (all multi-indices, last axis fastest).\<close>

definition zeros :: "nat list \<Rightarrow> 'a::zero ndarray" where
  "zeros shp = \<lparr>shape = shp, data = replicate (prod_list shp) 0\<rparr>"

fun ndindex :: "nat list \<Rightarrow> nat list list" where
  "ndindex [] = [[]]"
| "ndindex (n # ns) = concat (map (\<lambda>i. map ((#) i) (ndindex ns)) [0..<n])"

text \<open>\<^verbatim>\<open>A[None]\<close> adds a leading axis of length one; \<^verbatim>\<open>A[1:]\<close> drops the first entry of
  the leading axis of an array that has one, and leaves a leading axis of length zero at
  zero; \<^verbatim>\<open>A[0]\<close> selects that first entry.\<close>

definition expand_dims :: "'a ndarray \<Rightarrow> 'a ndarray" where
  "expand_dims A = A\<lparr>shape := 1 # shape A\<rparr>"

definition drop_first :: "'a ndarray \<Rightarrow> 'a ndarray" where
  "drop_first A =
     \<lparr>shape = (hd (shape A) - 1) # tl (shape A),
      data = drop (prod_list (tl (shape A))) (data A)\<rparr>"

definition index0 :: "'a ndarray \<Rightarrow> error + 'a ndarray" where
  "index0 A =
     (if shape A = [] \<or> hd (shape A) = 0 then Inl IndexError
      else Inr \<lparr>shape = tl (shape A), data = take (prod_list (tl (shape A))) (data A)\<rparr>)"

section \<open>The collaborators: basis and filter objects\<close>

text \<open>
  Modelled from the spec: the basis classes (\<^verbatim>\<open>pymks/bases\<close>) are not part of the
  sources at hand. A basis instance is parameterised by \<open>n_states\<close> and a \<open>domain\<close>; it
  has a class, and it may carry further attached state (the doctest of \<^verbatim>\<open>resize_coeff\<close>
  sets \<^verbatim>\<open>_axes\<close>). \<open>new_basis c n d\<close> is the constructor call \<^verbatim>\<open>c(n, d)\<close>: a fresh
  instance with nothing attached.
\<close>

record 'd basis_obj =
  b_class :: string
  b_n_states :: nat
  b_domain :: 'd
  b_axes :: "nat list option"

definition new_basis :: "string \<Rightarrow> nat \<Rightarrow> 'd \<Rightarrow> 'd basis_obj" where
  "new_basis c n d = \<lparr>b_class = c, b_n_states = n, b_domain = d, b_axes = None\<rparr>"

text \<open>
  Objects live in a store; an address is a position in it. Allocation appends, so
  a fresh address is one that no existing object has.
\<close>

type_synonym addr = nat

type_synonym 'd heap = "'d basis_obj list"

definition alloc :: "'d heap \<Rightarrow> 'd basis_obj \<Rightarrow> addr \<times> 'd heap" where
  "alloc h b = (length h, h @ [b])"

text \<open>
  Modelled from the spec: the class \<^verbatim>\<open>Filter\<close> (\<^verbatim>\<open>pymks/filter.py\<close>) is not part of
  the sources at hand. A filter is constructed from the kernel, the basis, a shape and
  the job count, and keeps them.
\<close>

record filter_obj =
  Fkernel :: "complex ndarray"
  f_basis :: addr
  f_shape :: "nat list"
  f_n_jobs :: int

definition Filter :: "complex ndarray \<Rightarrow> addr \<Rightarrow> nat list \<Rightarrow> int \<Rightarrow> filter_obj" where
  "Filter K b shp nj = \<lparr>Fkernel = K, f_basis = b, f_shape = shp, f_n_jobs = nj\<rparr>"

text \<open>
  The methods of the collaborators and scipy's \<^verbatim>\<open>lstsq\<close> are parameters of the model.
  \<open>discretize\<close> and \<open>fftn\<close> are methods of the basis and may change the instance they are
  called on, so they return it; \<open>get_basis_slice b ijk\<close> is the list of local-state
  indices that the slice returned by \<^verbatim>\<open>_get_basis_slice(ijk, s0)\<close> selects on the last
  axis; \<open>lstsq A b\<close> is the first component of scipy's result, for the matrix \<open>A\<close> given
  by its rows, or the error it raises. \<open>frequency_2_real\<close> and \<open>real_2_frequency\<close> are
  the filter's transforms between its stored kernel and the centred real-space kernel,
  and \<open>convolve\<close> is its convolution.
\<close>

record 'd collaborators =
  discretize :: "'d basis_obj \<Rightarrow> real ndarray \<Rightarrow> real ndarray \<times> 'd basis_obj"
  fftn :: "'d basis_obj \<Rightarrow> real ndarray \<Rightarrow> int \<Rightarrow> complex ndarray \<times> 'd basis_obj"
  get_basis_slice :: "'d basis_obj \<Rightarrow> nat list \<Rightarrow> nat list"
  lstsq :: "complex list list \<Rightarrow> complex list \<Rightarrow> error + complex list"
  frequency_2_real :: "filter_obj \<Rightarrow> real ndarray"
  real_2_frequency :: "real ndarray \<Rightarrow> complex ndarray"
  convolve :: "filter_obj \<Rightarrow> real ndarray \<Rightarrow> real ndarray"

section \<open>The model\<close>

text \<open>
  The attributes of an \<^verbatim>\<open>MKSLocalizationModel\<close>. \<open>basis\<close> is a reference to a basis
  object; \<open>filter_attr\<close> is the attribute \<^verbatim>\<open>_filter\<close>, \<open>None\<close> while the instance has no
  such attribute.
\<close>

record 'd model =
  basis :: addr
  n_states :: nat
  domain :: 'd
  n_jobs :: int
  filter_attr :: "filter_obj option"

text \<open>\<^verbatim>\<open>__init__(self, basis, n_states=None, n_jobs=1)\<close>\<close>

definition init :: "'d heap \<Rightarrow> addr \<Rightarrow> nat option \<Rightarrow> int \<Rightarrow> 'd model" where
  "init h b ns nj =
     \<lparr>basis = b,
      n_states = (case ns of None \<Rightarrow> b_n_states (h ! b) | Some n \<Rightarrow> n),
      domain = b_domain (h ! b),
      n_jobs = nj,
      filter_attr = None\<rparr>"

text \<open>
  \<^verbatim>\<open>_reshape_feature(self, X, size)\<close>. \<^verbatim>\<open>X.shape[-1]\<close>, \<^verbatim>\<open>size[-1]\<close> and
  \<^verbatim>\<open>X.shape[0]\<close> raise IndexError on an empty tuple.
\<close>

definition reshape_feature :: "'a ndarray \<Rightarrow> nat list \<Rightarrow> error + 'a ndarray" where
  "reshape_feature X sz =
     (if shape X = [] \<or> sz = [] then Inl IndexError
      else
        let sz1 = (if last (shape X) div 2 + 1 = last sz \<and> ndim X - 1 = length sz
                   then tl (shape X) else sz);
            new_shape = hd (shape X) # sz1
        in reshape new_shape X)"

text \<open>
  The result of a method: what it returned or raised, and the instance and the store
  as the call left them.
\<close>

type_synonym ('r, 'd) outcome = "(error + 'r) \<times> 'd model \<times> 'd heap"

text \<open>The property \<^verbatim>\<open>coeff\<close>: \<^verbatim>\<open>self._filter._frequency_2_real(copy=True)[0]\<close>.
  Reading \<^verbatim>\<open>self._filter\<close> on an instance without the attribute raises Python's own
  AttributeError (its message is given here without the quotation marks).\<close>

definition coeff :: "'d collaborators \<Rightarrow> 'd model \<Rightarrow> error + real ndarray" where
  "coeff env self =
     (case filter_attr self of
        None \<Rightarrow> Inl (AttributeError ''MKSLocalizationModel object has no attribute _filter'')
      | Some f \<Rightarrow> index0 (frequency_2_real env f))"

text \<open>\<^verbatim>\<open>predict(self, X)\<close>\<close>

definition predict ::
  "'d collaborators \<Rightarrow> real ndarray \<Rightarrow> 'd model \<times> 'd heap \<Rightarrow> (real ndarray, 'd) outcome" where
  "predict env X st =
     (case st of (self, h) \<Rightarrow>
        (case filter_attr self of
           None \<Rightarrow> (Inl (AttributeError ''fit() method must be run before predict().''), self, h)
         | Some f \<Rightarrow>
             let y_pred_shape = shape X in
             (case reshape_feature X (butlast (tl (shape (Fkernel f)))) of
                Inl e \<Rightarrow> (Inl e, self, h)
              | Inr X1 \<Rightarrow>
                  (case discretize env (h ! basis self) X1 of (Xd, b1) \<Rightarrow>
                     (reshape y_pred_shape (convolve env f Xd), self, h[basis self := b1])))))"

text \<open>
  The loop of \<^verbatim>\<open>fit\<close> over the frequency bins. For a bin \<open>ijk\<close> and the local-state
  indices \<open>s1\<close> that the basis selects there, \<open>bin_matrix\<close> is \<^verbatim>\<open>FX[s0 + ijk + s1]\<close>
  (one row per sample, one column per selected local state) and \<open>bin_rhs\<close> is
  \<^verbatim>\<open>Fy[s0 + ijk]\<close>.
\<close>

definition bin_matrix :: "complex ndarray \<Rightarrow> nat list \<Rightarrow> nat list \<Rightarrow> complex list list" where
  "bin_matrix FX ijk s1 =
     map (\<lambda>n. map (\<lambda>s. item FX ([n] @ ijk @ [s])) s1) [0..<hd (shape FX)]"

definition bin_rhs :: "complex ndarray \<Rightarrow> nat list \<Rightarrow> complex list" where
  "bin_rhs Fy ijk = map (\<lambda>n. item Fy ([n] @ ijk)) [0..<hd (shape Fy)]"

text \<open>
  \<^verbatim>\<open>Fkernel[ijk + s1] = k\<close>: the entries of \<open>k\<close> go to the selected local states of the
  bin, in order (\<open>write_all\<close> stores a list of local-state and value pairs at a bin).
  scipy returns one coefficient per column of the matrix; numpy refuses to assign a
  vector of another length.
\<close>

definition write_all ::
  "complex ndarray \<Rightarrow> nat list \<Rightarrow> (nat \<times> complex) list \<Rightarrow> complex ndarray" where
  "write_all K ijk ps = fold (\<lambda>(s, v) K'. setitem K' (ijk @ [s]) v) ps K"

definition assign_slice ::
  "complex ndarray \<Rightarrow> nat list \<Rightarrow> nat list \<Rightarrow> complex list \<Rightarrow> error + complex ndarray" where
  "assign_slice K ijk s1 k =
     (if length k = length s1 then Inr (write_all K ijk (zip s1 k)) else Inl ValueError)"

text \<open>One pass of the loop body, and the loop over a list of bins.\<close>

definition bin_step ::
  "(complex list list \<Rightarrow> complex list \<Rightarrow> error + complex list) \<Rightarrow> (nat list \<Rightarrow> nat list) \<Rightarrow>
   complex ndarray \<Rightarrow> complex ndarray \<Rightarrow> nat list \<Rightarrow> complex ndarray \<Rightarrow> error + complex ndarray" where
  "bin_step solver sl FX Fy ijk K =
     (let s1 = sl ijk in
      case solver (bin_matrix FX ijk s1) (bin_rhs Fy ijk) of
        Inl e \<Rightarrow> Inl e
      | Inr k \<Rightarrow> assign_slice K ijk s1 k)"

fun bin_loop ::
  "(complex list list \<Rightarrow> complex list \<Rightarrow> error + complex list) \<Rightarrow> (nat list \<Rightarrow> nat list) \<Rightarrow>
   complex ndarray \<Rightarrow> complex ndarray \<Rightarrow> nat list list \<Rightarrow> complex ndarray \<Rightarrow> error + complex ndarray" where
  "bin_loop solver sl FX Fy [] K = Inr K"
| "bin_loop solver sl FX Fy (ijk # rest) K =
     (case bin_step solver sl FX Fy ijk K of
        Inl e \<Rightarrow> Inl e
      | Inr K' \<Rightarrow> bin_loop solver sl FX Fy rest K')"

text \<open>Lines 120 to 124 of the source: the kernel starts as zeros of shape
  \<^verbatim>\<open>FX.shape[1:]\<close> and the loop runs over \<^verbatim>\<open>np.ndindex(FX.shape[1:-1])\<close>.\<close>

definition fit_kernel ::
  "(complex list list \<Rightarrow> complex list \<Rightarrow> error + complex list) \<Rightarrow> (nat list \<Rightarrow> nat list) \<Rightarrow>
   complex ndarray \<Rightarrow> complex ndarray \<Rightarrow> error + complex ndarray" where
  "fit_kernel solver sl FX Fy =
     bin_loop solver sl FX Fy (ndindex (butlast (tl (shape FX)))) (zeros (tl (shape FX)))"

text \<open>
  The optional reshape of \<^verbatim>\<open>fit\<close> (\<open>y\<close> first, then \<open>X\<close>) and its two checks. The
  result is the pair \<open>(y, X)\<close> that the rest of \<^verbatim>\<open>fit\<close> works on.
\<close>

definition fit_validate ::
  "real ndarray \<Rightarrow> real ndarray \<Rightarrow> nat list option \<Rightarrow> error + (real ndarray \<times> real ndarray)" where
  "fit_validate X y sz =
     (case (case sz of
              None \<Rightarrow> Inr (y, X)
            | Some s \<Rightarrow>
                (case reshape_feature y s of
                   Inl e \<Rightarrow> Inl e
                 | Inr y1 \<Rightarrow>
                     (case reshape_feature X s of
                        Inl e \<Rightarrow> Inl e
                      | Inr X1 \<Rightarrow> Inr (y1, X1)))) of
        Inl e \<Rightarrow> Inl e
      | Inr (y1, X1) \<Rightarrow>
          if \<not> length (shape y1) > 1 then Inl (RuntimeError ''The shape of y is incorrect.'')
          else if shape y1 \<noteq> shape X1 then Inl (RuntimeError ''X and y must be the same shape.'')
          else Inr (y1, X1))"

text \<open>
  Line 109 of the source, the first statement of \<^verbatim>\<open>fit\<close>:
  \<^verbatim>\<open>self.basis = self.basis.__class__(self.n_states, self.domain)\<close>. A new basis
  object is built from the class of the current one and the model's \<open>n_states\<close> and
  \<open>domain\<close>, and becomes the model's basis.
\<close>

definition recreate_basis :: "'d model \<times> 'd heap \<Rightarrow> 'd model \<times> 'd heap" where
  "recreate_basis st =
     (case st of (self, h) \<Rightarrow>
        (case alloc h (new_basis (b_class (h ! basis self)) (n_states self) (domain self)) of
           (a, h1) \<Rightarrow> (self\<lparr>basis := a\<rparr>, h1)))"

text \<open>
  The three method calls on the basis (lines 117 to 119): the arrays \<open>FX\<close> and \<open>Fy\<close>
  and the basis object as the calls leave it.
\<close>

definition fit_transforms ::
  "'d collaborators \<Rightarrow> 'd basis_obj \<Rightarrow> int \<Rightarrow> real ndarray \<Rightarrow> real ndarray \<Rightarrow>
   complex ndarray \<times> complex ndarray \<times> 'd basis_obj" where
  "fit_transforms env b nj X1 y1 =
     (case discretize env b X1 of (Xd, b1) \<Rightarrow>
     (case fftn env b1 Xd nj of (FX, b2) \<Rightarrow>
     (case fftn env b2 y1 nj of (Fy, b3) \<Rightarrow> (FX, Fy, b3))))"

text \<open>
  \<^verbatim>\<open>fit(self, X, y, size=None)\<close>. Everything after the first statement, the two
  checks included, runs with the new basis in place. The filter receives
  \<^verbatim>\<open>Fkernel[None]\<close>, the basis, \<^verbatim>\<open>y[1:].shape\<close> and the job count.
\<close>

definition fit ::
  "'d collaborators \<Rightarrow> real ndarray \<Rightarrow> real ndarray \<Rightarrow> nat list option \<Rightarrow>
   'd model \<times> 'd heap \<Rightarrow> (unit, 'd) outcome" where
  "fit env X y sz st =
     (case recreate_basis st of (self, h) \<Rightarrow>
        (case fit_validate X y sz of
           Inl e \<Rightarrow> (Inl e, self, h)
         | Inr (y1, X1) \<Rightarrow>
             (case fit_transforms env (h ! basis self) (n_jobs self) X1 y1 of
                (FX, Fy, b3) \<Rightarrow>
                  let h' = h[basis self := b3] in
                  (case fit_kernel (lstsq env) (get_basis_slice env b3) FX Fy of
                     Inl e \<Rightarrow> (Inl e, self, h')
                   | Inr K \<Rightarrow>
                       (Inr (),
                        self\<lparr>filter_attr :=
                          Some (Filter (expand_dims K) (basis self)
                                  (shape (drop_first y1)) (n_jobs self))\<rparr>,
                        h')))))"

text \<open>
  Modelled from the spec: \<^verbatim>\<open>Filter.resize\<close> is not part of the sources at hand. It
  changes the real-space support of the kernel to the new size by inverse-transforming,
  zero-padding or truncating around the original kernel's footprint, and transforming
  forward again; the sample axis and the local-state axis are unchanged. The placement
  is the one of the doctest of \<^verbatim>\<open>resize_coeff\<close>, where a 5 by 4 kernel resized to 10 by 7
  has 3 rows of zeros above and 2 below, 2 columns of zeros to the left and 1 to the
  right: growing an axis from \<open>old\<close> to \<open>new\<close> puts \<open>pad_before old new\<close> zeros in front.
  Truncation removes what that padding would have added. \<open>axis_source old new j\<close> is the
  position in the old axis that position \<open>j\<close> of the new axis takes its value from, if
  there is one.
\<close>

definition pad_before :: "nat \<Rightarrow> nat \<Rightarrow> nat" where
  "pad_before old new = (new - old) - (new - old) div 2"

definition axis_source :: "nat \<Rightarrow> nat \<Rightarrow> nat \<Rightarrow> nat option" where
  "axis_source old new j =
     (if old \<le> new
      then (if pad_before old new \<le> j \<and> j < pad_before old new + old
            then Some (j - pad_before old new) else None)
      else Some (j + pad_before new old))"

fun index_source :: "nat list \<Rightarrow> nat list \<Rightarrow> nat list \<Rightarrow> nat list option" where
  "index_source (old # olds) (new # news) (j # js) =
     (case axis_source old new j of
        None \<Rightarrow> None
      | Some i \<Rightarrow> map_option ((#) i) (index_source olds news js))"
| "index_source [] [] [] = Some []"
| "index_source _ _ _ = None"

definition resize_array :: "nat list \<Rightarrow> 'a::zero ndarray \<Rightarrow> 'a ndarray" where
  "resize_array new_shape A =
     \<lparr>shape = new_shape,
      data = map (\<lambda>idx. case index_source (shape A) new_shape idx of
                           None \<Rightarrow> 0
                         | Some src \<Rightarrow> item A src)
                 (ndindex new_shape)\<rparr>"

definition resize_kernel :: "nat list \<Rightarrow> 'a::zero ndarray \<Rightarrow> 'a ndarray" where
  "resize_kernel sz k = resize_array (hd (shape k) # sz @ [last (shape k)]) k"

definition filter_resize :: "'d collaborators \<Rightarrow> nat list \<Rightarrow> filter_obj \<Rightarrow> filter_obj" where
  "filter_resize env sz f =
     f\<lparr>Fkernel := real_2_frequency env (resize_kernel sz (frequency_2_real env f))\<rparr>"

text \<open>\<^verbatim>\<open>resize_coeff(self, size)\<close>: \<^verbatim>\<open>self._filter.resize(size)\<close>.\<close>

definition resize_coeff ::
  "'d collaborators \<Rightarrow> nat list \<Rightarrow> 'd model \<times> 'd heap \<Rightarrow> (unit, 'd) outcome" where
  "resize_coeff env sz st =
     (case st of (self, h) \<Rightarrow>
        (case filter_attr self of
           None \<Rightarrow>
             (Inl (AttributeError ''MKSLocalizationModel object has no attribute _filter''),
              self, h)
         | Some f \<Rightarrow> (Inr (), self\<lparr>filter_attr := Some (filter_resize env sz f)\<rparr>, h)))"

section \<open>The statements of the specification\<close>

text \<open>
  The shape that the optional reshape of \<^verbatim>\<open>fit\<close> asks for: the array's own shape when
  no size is given or the half-spectrum test of the helper holds, the sample count
  followed by the size otherwise. The element count is kept when the product of the
  shape is the same before and after, which is what numpy asks of a reshape; the
  per-sample element count is kept when the product of the spatial part is.
\<close>

definition reshaped_shape :: "nat list \<Rightarrow> nat list option \<Rightarrow> nat list" where
  "reshaped_shape shp sz =
     (case sz of
        None \<Rightarrow> shp
      | Some s \<Rightarrow>
          if last shp div 2 + 1 = last s \<and> length shp - 1 = length s then shp
          else hd shp # s)"

definition count_kept :: "nat list \<Rightarrow> nat list option \<Rightarrow> bool" where
  "count_kept shp sz = (prod_list (reshaped_shape shp sz) = prod_list shp)"

definition per_sample_count_kept :: "nat list \<Rightarrow> nat list option \<Rightarrow> bool" where
  "per_sample_count_kept shp sz = (prod_list (tl (reshaped_shape shp sz)) = prod_list (tl shp))"

text \<open>
  The errors that the specification calls shape errors: the two RuntimeErrors of
  \<^verbatim>\<open>fit\<close> and numpy's refusal to reshape.
\<close>

definition shape_error :: "error \<Rightarrow> bool" where
  "shape_error e =
     (e = RuntimeError ''The shape of y is incorrect.''
      \<or> e = RuntimeError ''X and y must be the same shape.''
      \<or> e = ValueError)"

text \<open>
  When the specification expects a shape error of \<^verbatim>\<open>fit\<close>, for \<open>X\<close> of shape \<open>xs\<close> and
  \<open>y\<close> of shape \<open>ys\<close>: \<open>y\<close> is not of rank above one after the reshape, or the shapes
  differ after it, or a size is given and the element count per sample is not kept.
\<close>

definition shape_error_expected :: "nat list \<Rightarrow> nat list \<Rightarrow> nat list option \<Rightarrow> bool" where
  "shape_error_expected xs ys sz =
     (\<not> 1 < length (reshaped_shape ys sz)
      \<or> reshaped_shape xs sz \<noteq> reshaped_shape ys sz
      \<or> (sz \<noteq> None \<and> \<not> (per_sample_count_kept ys sz \<and> per_sample_count_kept xs sz)))"

text \<open>
  The coefficient that the least-squares solution of a bin gives to local state \<open>s\<close>;
  zero for a local state outside the slice.
\<close>

definition bin_solution ::
  "(complex list list \<Rightarrow> complex list \<Rightarrow> error + complex list) \<Rightarrow> (nat list \<Rightarrow> nat list) \<Rightarrow>
   complex ndarray \<Rightarrow> complex ndarray \<Rightarrow> nat list \<Rightarrow> nat \<Rightarrow> complex" where
  "bin_solution solver sl FX Fy ijk s =
     (case solver (bin_matrix FX ijk (sl ijk)) (bin_rhs Fy ijk) of
        Inl e \<Rightarrow> 0
      | Inr k \<Rightarrow> (case map_of (zip (sl ijk) k) s of None \<Rightarrow> 0 | Some v \<Rightarrow> v))"

text \<open>
  Least squares. \<open>residual A b k\<close> is the squared distance between \<open>A k\<close> and \<open>b\<close>, for
  the matrix \<open>A\<close> given by its rows; \<open>k\<close> is a least-squares solution of \<open>A k = b\<close> when
  no vector of its length has a smaller residual.
\<close>

definition residual :: "complex list list \<Rightarrow> complex list \<Rightarrow> complex list \<Rightarrow> real" where
  "residual A b k =
     sum_list (map2 (\<lambda>row v. (cmod (sum_list (map2 (*) row k) - v))\<^sup>2) A b)"

definition least_squares_solution ::
  "complex list list \<Rightarrow> complex list \<Rightarrow> complex list \<Rightarrow> bool" where
  "least_squares_solution A b k =
     (\<forall>k'. length k' = length k \<longrightarrow> residual A b k \<le> residual A b k')"

section \<open>Small inputs\<close>

text \<open>
  Stand-ins for the collaborators, used to run the model on small inputs with one local
  state and spatial axes of length one, where the discrete Fourier transform is the
  identity: \<open>demo_discretize\<close> adds the local-state axis, \<open>demo_fftn\<close> only changes the
  element type in either direction, the slice is all local states, and \<open>demo_lstsq\<close> is
  the least-squares solution of a system with a single column.
\<close>

definition demo_lstsq :: "complex list list \<Rightarrow> complex list \<Rightarrow> error + complex list" where
  "demo_lstsq A b =
     (if list_all (\<lambda>row. length row = 1) A \<and> length A = length b
      then Inr [sum_list (map2 (\<lambda>row v. cnj (hd row) * v) A b)
                / sum_list (map (\<lambda>row. cnj (hd row) * hd row) A)]
      else Inl LinAlgError)"

definition demo_env :: "real list collaborators" where
  "demo_env =
     \<lparr>discretize = (\<lambda>b X. (\<lparr>shape = shape X @ [1], data = data X\<rparr>, b)),
      fftn = (\<lambda>b A nj. (\<lparr>shape = shape A, data = map complex_of_real (data A)\<rparr>,
                         b\<lparr>b_axes := Some [1..<length (shape A)]\<rparr>)),
      get_basis_slice = (\<lambda>b ijk. [0..<b_n_states b]),
      lstsq = demo_lstsq,
      frequency_2_real = (\<lambda>f. \<lparr>shape = shape (Fkernel f), data = map Re (data (Fkernel f))\<rparr>),
      real_2_frequency = (\<lambda>k. \<lparr>shape = shape k, data = map complex_of_real (data k)\<rparr>),
      convolve = (\<lambda>f Xd. \<lparr>shape = butlast (shape Xd), data = data Xd\<rparr>)\<rparr>"

text \<open>A store with one basis object.\<close>

definition demo_heap :: "real list heap" where
  "demo_heap =
     [\<lparr>b_class = ''PrimitiveBasis'', b_n_states = 1, b_domain = [0, 1], b_axes = None\<rparr>]"

text \<open>Two samples with one spatial point, with \<open>y = 3 X\<close>; a model on the basis of the
  store; and the model and the store that a fit of these samples leaves.\<close>

definition demo_X :: "real ndarray" where
  "demo_X = \<lparr>shape = [2, 1], data = [1, 2]\<rparr>"

definition demo_y :: "real ndarray" where
  "demo_y = \<lparr>shape = [2, 1], data = [3, 6]\<rparr>"

definition demo_model :: "real list model" where
  "demo_model = init demo_heap 0 None 1"

definition demo_fitted_model :: "real list model" where
  "demo_fitted_model =
     \<lparr>basis = 1, n_states = 1, domain = [0, 1], n_jobs = 1,
      filter_attr = Some \<lparr>Fkernel = \<lparr>shape = [1, 1, 1], data = [3]\<rparr>, f_basis = 1,
                           f_shape = [1, 1], f_n_jobs = 1\<rparr>\<rparr>"

definition demo_fitted_heap :: "real list heap" where
  "demo_fitted_heap =
     [\<lparr>b_class = ''PrimitiveBasis'', b_n_states = 1, b_domain = [0, 1], b_axes = None\<rparr>,
      \<lparr>b_class = ''PrimitiveBasis'', b_n_states = 1, b_domain = [0, 1], b_axes = Some [1]\<rparr>]"

text \<open>Arrays \<open>FX\<close> and \<open>Fy\<close> for two samples, two frequency bins and two local states,
  and a slice that selects the first local state at the first bin and the second at
  the second. At the first bin the column is \<open>(1, 2)\<close> and the right-hand side
  \<open>(3, 6)\<close>; at the second bin they are \<open>(2, 3)\<close> and \<open>(4, 6)\<close>.\<close>

definition demo_FX :: "complex ndarray" where
  "demo_FX = \<lparr>shape = [2, 2, 2], data = [1, 5, 4, 2, 2, 7, 9, 3]\<rparr>"

definition demo_Fy :: "complex ndarray" where
  "demo_Fy = \<lparr>shape = [2, 2], data = [3, 4, 6, 6]\<rparr>"

definition demo_slice :: "nat list \<Rightarrow> nat list" where
  "demo_slice ijk = (if ijk = [0] then [0] else [1])"

text \<open>A filter whose kernel has one sample entry, two spatial points and one local state.\<close>

definition demo_filter :: filter_obj where
  "demo_filter =
     \<lparr>Fkernel = \<lparr>shape = [1, 2, 1], data = [1, 2]\<rparr>, f_basis = 0, f_shape = [1, 2],
      f_n_jobs = 1\<rparr>"

section \<open>The constructor, and the calls that need a fit first\<close>

text \<open>
  C10. The constructor takes \<open>n_states\<close> from the basis when the argument is \<open>None\<close> and
  from the argument otherwise, and always copies \<open>domain\<close> from the basis; it keeps the
  basis reference and the job count, and sets no \<^verbatim>\<open>_filter\<close>.
\<close>

theorem init_attributes:
  "n_states (init h b ns nj) = (case ns of None \<Rightarrow> b_n_states (h ! b) | Some n \<Rightarrow> n)
   \<and> domain (init h b ns nj) = b_domain (h ! b)
   \<and> basis (init h b ns nj) = b
   \<and> n_jobs (init h b ns nj) = nj
   \<and> filter_attr (init h b ns nj) = None"
  by (simp add: init_def)

text \<open>
  C9. Reading \<open>coeff\<close> on a freshly constructed model raises an AttributeError, whatever
  the collaborators are; it returns no value.
\<close>

theorem coeff_before_fit:
  "coeff env (init h b ns nj)
     = Inl (AttributeError ''MKSLocalizationModel object has no attribute _filter'')"
  by (simp add: coeff_def init_def)

text \<open>
  C5. \<open>predict\<close> on a freshly constructed model raises the AttributeError
  "fit() method must be run before predict()." and leaves the model and the store as
  they were; the outcome does not depend on the collaborators or on \<open>X\<close>, so nothing
  is computed.
\<close>

theorem predict_before_fit:
  "predict env X (init h b ns nj, h)
     = (Inl (AttributeError ''fit() method must be run before predict().''), init h b ns nj, h)"
  by (simp add: predict_def init_def)

section \<open>The reshape helper\<close>

lemma reshape_own_shape: "reshape (shape X) X = Inr X"
  by (simp add: reshape_def)

text \<open>
  C6. For an array with a sample axis and a non-empty target size, the helper returns
  \<open>X\<close> itself when the half-spectrum test holds (last axis \<open>// 2 + 1\<close> equal to the last
  entry of the size, and as many spatial axes as the size has entries), and otherwise
  \<open>X\<close> reshaped to its sample count followed by the size: the same elements under that
  shape, which numpy grants exactly when the element counts agree.
\<close>

theorem reshape_feature_spec:
  assumes "shape X \<noteq> []" "sz \<noteq> []"
  shows "reshape_feature X sz =
           (if last (shape X) div 2 + 1 = last sz \<and> ndim X - 1 = length sz then Inr X
            else reshape (hd (shape X) # sz) X)
         \<and> (\<forall>Y. reshape (hd (shape X) # sz) X = Inr Y
                \<longrightarrow> shape Y = hd (shape X) # sz \<and> data Y = data X)
         \<and> ((\<exists>Y. reshape (hd (shape X) # sz) X = Inr Y)
                \<longleftrightarrow> prod_list (hd (shape X) # sz) = prod_list (shape X))"
proof -
  from assms obtain n ns where shp: "shape X = n # ns" by (cases "shape X") auto
  have own: "reshape (n # ns) X = Inr X"
    using reshape_own_shape [of X] by (simp add: shp)
  have "reshape_feature X sz =
          (if last (shape X) div 2 + 1 = last sz \<and> ndim X - 1 = length sz then Inr X
           else reshape (hd (shape X) # sz) X)"
    using assms by (simp add: reshape_feature_def Let_def shp own)
  moreover have "\<forall>Y. reshape (hd (shape X) # sz) X = Inr Y
                \<longrightarrow> shape Y = hd (shape X) # sz \<and> data Y = data X"
    by (auto simp add: reshape_def split: if_splits)
  moreover have "(\<exists>Y. reshape (hd (shape X) # sz) X = Inr Y)
                \<longleftrightarrow> prod_list (hd (shape X) # sz) = prod_list (shape X)"
    by (simp add: reshape_def)
  ultimately show ?thesis by blast
qed

theorem reshape_feature_spec_witness:
  "reshape_feature \<lparr>shape = [1, 4], data = [1, 2, 3, 4 :: real]\<rparr> [2, 2]
     = Inr \<lparr>shape = [1, 2, 2], data = [1, 2, 3, 4]\<rparr>
   \<and> reshape_feature \<lparr>shape = [1, 4], data = [1, 2, 3, 4 :: real]\<rparr> [3]
     = Inr \<lparr>shape = [1, 4], data = [1, 2, 3, 4]\<rparr>"
  using reshape_feature_spec [of "\<lparr>shape = [1, 4], data = [1, 2, 3, 4 :: real]\<rparr>" "[2, 2]"]
        reshape_feature_spec [of "\<lparr>shape = [1, 4], data = [1, 2, 3, 4 :: real]\<rparr>" "[3]"]
  by (simp add: ndim_def reshape_def)

section \<open>The checks of fit\<close>

lemma reshape_feature_result:
  assumes "shape X \<noteq> []" "s \<noteq> []"
  shows "reshape_feature X s =
      (if prod_list (reshaped_shape (shape X) (Some s)) = prod_list (shape X)
       then Inr (X\<lparr>shape := reshaped_shape (shape X) (Some s)\<rparr>) else Inl ValueError)"
proof -
  from assms obtain n ns where shp: "shape X = n # ns" by (cases "shape X") auto
  show ?thesis
    using assms by (simp add: reshape_feature_def Let_def reshaped_shape_def reshape_def ndim_def shp)
qed

lemma per_sample_total:
  assumes "shp \<noteq> []" "0 < hd shp" "sz \<noteq> Some []"
  shows "per_sample_count_kept shp sz \<longleftrightarrow> prod_list (reshaped_shape shp sz) = prod_list shp"
proof -
  from assms obtain n ns where shp: "shp = n # ns" and n: "0 < n" by (cases shp) auto
  show ?thesis using n
    by (cases sz) (auto simp add: per_sample_count_kept_def reshaped_shape_def shp)
qed

lemma reshape_feature_outcome:
  "reshape_feature X s =
      (if shape X = [] \<or> s = [] then Inl IndexError
       else if count_kept (shape X) (Some s)
       then Inr (X\<lparr>shape := reshaped_shape (shape X) (Some s)\<rparr>) else Inl ValueError)"
proof (cases "shape X = [] \<or> s = []")
  case True
  then show ?thesis by (simp add: reshape_feature_def)
next
  case False
  then show ?thesis
    by (simp add: reshape_feature_result count_kept_def)
qed

text \<open>
  C4, as the specification states it, fails. With no samples, \<open>X\<close> and \<open>y\<close> of shape
  \<open>(0, 4)\<close> and size \<open>(5)\<close>, the per-sample element count changes from 4 to 5, so the
  specification expects a shape error; numpy grants the reshape of an array without
  elements, and the checks pass. And with the empty size \<open>()\<close> the helper raises an
  IndexError, which is no shape error.
\<close>

theorem fit_validate_zero_samples:
  "shape_error_expected [0, 4] [0, 4] (Some [5])
   \<and> fit_validate \<lparr>shape = [0, 4], data = []\<rparr> \<lparr>shape = [0, 4], data = []\<rparr> (Some [5])
       = Inr (\<lparr>shape = [0, 5], data = []\<rparr>, \<lparr>shape = [0, 5], data = []\<rparr>)
   \<and> fit_validate \<lparr>shape = [1, 4], data = [1, 2, 3, 4]\<rparr>
         \<lparr>shape = [1, 4], data = [5, 6, 7, 8]\<rparr> (Some []) = Inl IndexError
   \<and> \<not> shape_error IndexError"
  by (simp add: shape_error_expected_def per_sample_count_kept_def reshaped_shape_def
      fit_validate_def reshape_feature_def reshape_def ndim_def shape_error_def)

text \<open>
  C4, amended. The reshape and the checks of \<^verbatim>\<open>fit\<close> give, for every \<open>X\<close>, \<open>y\<close> and
  size, the first of these that applies. When a size is given: an IndexError if \<open>y\<close>
  has no axis or the size is empty; numpy's ValueError if the reshape of \<open>y\<close> does not
  keep its element count; an IndexError if \<open>X\<close> has no axis; the ValueError if the
  reshape of \<open>X\<close> does not keep its element count. Then, with or without a size: the
  RuntimeError "The shape of y is incorrect." if \<open>y\<close> is not of rank above one after
  the reshape; the RuntimeError "X and y must be the same shape." if the two shapes
  differ after it. In every other case the checks pass, and \<open>y\<close> and \<open>X\<close> go on under
  the shapes that the reshape asked for. The element count is the one of the whole
  array and of the reshape that the helper performs (none when its half-spectrum test
  holds); for an array with at least one sample and a non-empty size it is kept
  exactly when the per-sample count is.
\<close>

theorem fit_validate_spec:
  "fit_validate X y sz =
     (if sz \<noteq> None \<and> (shape y = [] \<or> sz = Some []) then Inl IndexError
      else if sz \<noteq> None \<and> \<not> count_kept (shape y) sz then Inl ValueError
      else if sz \<noteq> None \<and> shape X = [] then Inl IndexError
      else if sz \<noteq> None \<and> \<not> count_kept (shape X) sz then Inl ValueError
      else if \<not> 1 < length (reshaped_shape (shape y) sz)
      then Inl (RuntimeError ''The shape of y is incorrect.'')
      else if reshaped_shape (shape y) sz \<noteq> reshaped_shape (shape X) sz
      then Inl (RuntimeError ''X and y must be the same shape.'')
      else Inr (y\<lparr>shape := reshaped_shape (shape y) sz\<rparr>,
                X\<lparr>shape := reshaped_shape (shape X) sz\<rparr>))
   \<and> (shape y \<noteq> [] \<and> 0 < hd (shape y) \<and> sz \<noteq> Some []
        \<longrightarrow> count_kept (shape y) sz = per_sample_count_kept (shape y) sz)
   \<and> (shape X \<noteq> [] \<and> 0 < hd (shape X) \<and> sz \<noteq> Some []
        \<longrightarrow> count_kept (shape X) sz = per_sample_count_kept (shape X) sz)"
proof -
  have 1: "fit_validate X y sz =
     (if sz \<noteq> None \<and> (shape y = [] \<or> sz = Some []) then Inl IndexError
      else if sz \<noteq> None \<and> \<not> count_kept (shape y) sz then Inl ValueError
      else if sz \<noteq> None \<and> shape X = [] then Inl IndexError
      else if sz \<noteq> None \<and> \<not> count_kept (shape X) sz then Inl ValueError
      else if \<not> 1 < length (reshaped_shape (shape y) sz)
      then Inl (RuntimeError ''The shape of y is incorrect.'')
      else if reshaped_shape (shape y) sz \<noteq> reshaped_shape (shape X) sz
      then Inl (RuntimeError ''X and y must be the same shape.'')
      else Inr (y\<lparr>shape := reshaped_shape (shape y) sz\<rparr>,
                X\<lparr>shape := reshaped_shape (shape X) sz\<rparr>))"
  proof (cases sz)
    case None
    then show ?thesis by (simp add: fit_validate_def reshaped_shape_def)
  next
    case (Some s)
    show ?thesis
      by (simp add: fit_validate_def Some reshape_feature_outcome)
  qed
  have 2: "count_kept shp sz = per_sample_count_kept shp sz"
    if "shp \<noteq> [] \<and> 0 < hd shp \<and> sz \<noteq> Some []" for shp
    using per_sample_total [of shp sz] that by (simp add: count_kept_def)
  from 1 2 show ?thesis by blast
qed

text \<open>Four calls: a one-dimensional \<open>y\<close> beside an \<open>X\<close> of another shape, where the
  first check decides; a size that does not fit; a shape mismatch after a reshape that
  fits; and a reshape after which the checks pass.\<close>

theorem fit_validate_spec_witness:
  "fit_validate \<lparr>shape = [3], data = [1, 2, 3]\<rparr> \<lparr>shape = [2], data = [3, 6]\<rparr> None
     = Inl (RuntimeError ''The shape of y is incorrect.'')
   \<and> fit_validate \<lparr>shape = [1, 6], data = [1, 2, 3, 4, 5, 6]\<rparr>
        \<lparr>shape = [1, 6], data = [1, 2, 3, 4, 5, 6]\<rparr> (Some [2, 2]) = Inl ValueError
   \<and> fit_validate \<lparr>shape = [2, 4], data = [1, 2, 3, 4, 5, 6, 7, 8]\<rparr>
        \<lparr>shape = [1, 4], data = [5, 6, 7, 8]\<rparr> (Some [2, 2])
       = Inl (RuntimeError ''X and y must be the same shape.'')
   \<and> fit_validate \<lparr>shape = [1, 4], data = [1, 2, 3, 4]\<rparr>
        \<lparr>shape = [1, 4], data = [5, 6, 7, 8]\<rparr> (Some [2, 2])
       = Inr (\<lparr>shape = [1, 2, 2], data = [5, 6, 7, 8]\<rparr>, \<lparr>shape = [1, 2, 2], data = [1, 2, 3, 4]\<rparr>)
   \<and> count_kept [1, 6] (Some [2, 2]) = per_sample_count_kept [1, 6] (Some [2, 2])"
  using fit_validate_spec [of "\<lparr>shape = [3], data = [1, 2, 3]\<rparr>" "\<lparr>shape = [2], data = [3, 6]\<rparr>" None]
    fit_validate_spec [of "\<lparr>shape = [1, 6], data = [1, 2, 3, 4, 5, 6]\<rparr>"
        "\<lparr>shape = [1, 6], data = [1, 2, 3, 4, 5, 6]\<rparr>" "Some [2, 2]"]
    fit_validate_spec [of "\<lparr>shape = [2, 4], data = [1, 2, 3, 4, 5, 6, 7, 8]\<rparr>"
        "\<lparr>shape = [1, 4], data = [5, 6, 7, 8]\<rparr>" "Some [2, 2]"]
    fit_validate_spec [of "\<lparr>shape = [1, 4], data = [1, 2, 3, 4]\<rparr>"
        "\<lparr>shape = [1, 4], data = [5, 6, 7, 8]\<rparr>" "Some [2, 2]"]
  by (simp add: count_kept_def reshaped_shape_def)

section \<open>What fit does to the model and the store\<close>

text \<open>The outcome of \<^verbatim>\<open>fit\<close>, path by path.\<close>

lemma fit_outcome:
  "fit env X y sz (self, h) =
     (let b = new_basis (b_class (h ! basis self)) (n_states self) (domain self);
          self1 = self\<lparr>basis := length h\<rparr>
      in case fit_validate X y sz of
           Inl e \<Rightarrow> (Inl e, self1, h @ [b])
         | Inr (y1, X1) \<Rightarrow>
             (case fit_transforms env b (n_jobs self) X1 y1 of
                (FX, Fy, b3) \<Rightarrow>
                  (case fit_kernel (lstsq env) (get_basis_slice env b3) FX Fy of
                     Inl e \<Rightarrow> (Inl e, self1, h @ [b3])
                   | Inr K \<Rightarrow>
                       (Inr (),
                        self1\<lparr>filter_attr :=
                          Some (Filter (expand_dims K) (length h)
                                  (shape (drop_first y1)) (n_jobs self))\<rparr>,
                        h @ [b3]))))"
  by (simp add: fit_def recreate_basis_def alloc_def Let_def split: sum.splits prod.splits)

text \<open>The fit of the two samples: the kernel found is 3.\<close>

lemma demo_fit:
  "fit demo_env demo_X demo_y None (demo_model, demo_heap)
     = (Inr (), demo_fitted_model, demo_fitted_heap)"
  by (simp add: demo_X_def demo_y_def demo_model_def demo_fitted_model_def demo_fitted_heap_def
      demo_heap_def init_def fit_def recreate_basis_def alloc_def new_basis_def
      fit_validate_def fit_transforms_def demo_env_def fit_kernel_def bin_step_def bin_matrix_def
      bin_rhs_def item_def demo_lstsq_def assign_slice_def write_all_def setitem_def zeros_def
      Filter_def expand_dims_def drop_first_def upt_conv_Cons)

text \<open>
  C3, as the specification states it, fails: a model built with \<open>n_states = 3\<close> on a
  basis of one local state, fitted with a one-dimensional \<open>y\<close>, raises "The shape of y
  is incorrect.", and afterwards the model is not what it was: its basis is another
  object, with three local states.
\<close>

theorem fit_shape_error_changes_basis:
  "fst (fit demo_env \<lparr>shape = [2], data = [1, 2]\<rparr> \<lparr>shape = [2], data = [3, 6]\<rparr> None
          (init demo_heap 0 (Some 3) 1, demo_heap))
     = Inl (RuntimeError ''The shape of y is incorrect.'')
   \<and> fst (snd (fit demo_env \<lparr>shape = [2], data = [1, 2]\<rparr> \<lparr>shape = [2], data = [3, 6]\<rparr> None
          (init demo_heap 0 (Some 3) 1, demo_heap)))
     \<noteq> init demo_heap 0 (Some 3) 1
   \<and> snd (snd (fit demo_env \<lparr>shape = [2], data = [1, 2]\<rparr> \<lparr>shape = [2], data = [3, 6]\<rparr> None
          (init demo_heap 0 (Some 3) 1, demo_heap)))
       ! basis (fst (snd (fit demo_env \<lparr>shape = [2], data = [1, 2]\<rparr>
                            \<lparr>shape = [2], data = [3, 6]\<rparr> None
                            (init demo_heap 0 (Some 3) 1, demo_heap))))
     \<noteq> demo_heap ! basis (init demo_heap 0 (Some 3) 1)"
  by (simp add: fit_outcome fit_validate_def init_def demo_heap_def new_basis_def)

text \<open>
  C3, amended. When the reshape or a check of \<^verbatim>\<open>fit\<close> raises, \<^verbatim>\<open>fit\<close> raises that
  error; \<open>n_states\<close>, \<open>domain\<close>, \<open>n_jobs\<close> and \<^verbatim>\<open>_filter\<close> are as before the call and so is
  every object that was in the store; the attribute \<open>basis\<close> alone has changed, to a new
  object of the class of the old one built from \<open>n_states\<close> and \<open>domain\<close>.
\<close>

theorem fit_shape_error_state:
  assumes "fit_validate X y sz = Inl e"
  shows "fit env X y sz (self, h) =
           (Inl e, self\<lparr>basis := length h\<rparr>,
            h @ [new_basis (b_class (h ! basis self)) (n_states self) (domain self)])"
  using assms by (simp add: fit_outcome)

theorem fit_shape_error_state_witness:
  "fit demo_env \<lparr>shape = [2, 1], data = [1, 2]\<rparr> \<lparr>shape = [2, 2], data = [3, 6, 9, 12]\<rparr> None
       (init demo_heap 0 None 1, demo_heap)
     = (Inl (RuntimeError ''X and y must be the same shape.''),
        \<lparr>basis = 1, n_states = 1, domain = [0, 1], n_jobs = 1, filter_attr = None\<rparr>,
        demo_heap @ [\<lparr>b_class = ''PrimitiveBasis'', b_n_states = 1, b_domain = [0, 1],
                       b_axes = None\<rparr>])"
proof -
  have "fit_validate \<lparr>shape = [2, 1], data = [1, 2]\<rparr> \<lparr>shape = [2, 2], data = [3, 6, 9, 12]\<rparr> None
          = Inl (RuntimeError ''X and y must be the same shape.'')"
    by (simp add: fit_validate_def)
  from fit_shape_error_state [OF this, of demo_env "init demo_heap 0 None 1" demo_heap]
  show ?thesis by (simp add: init_def demo_heap_def new_basis_def)
qed

text \<open>
  C8. The first statement of \<^verbatim>\<open>fit\<close> makes a new basis object from the class of the
  current one and the model's \<open>n_states\<close> and \<open>domain\<close>, and makes it the model's basis.
  However the call ends, the model's basis is that new object, at an address that no
  object had before the call, so it is not the basis the model had; every object that
  existed before the call, the one the caller supplied among them, is unchanged; and
  the filter of a fit that succeeds holds the new object as well.
\<close>

theorem fit_recreates_basis:
  assumes "fit env X y sz (self, h) = (r, self', h')"
  shows "recreate_basis (self, h) =
           (self\<lparr>basis := length h\<rparr>,
            h @ [new_basis (b_class (h ! basis self)) (n_states self) (domain self)])
         \<and> basis self' = length h
         \<and> length h' = Suc (length h)
         \<and> take (length h) h' = h
         \<and> (basis self < length h \<longrightarrow> basis self' \<noteq> basis self)
         \<and> (r = Inr () \<longrightarrow> map_option f_basis (filter_attr self') = Some (length h))"
  using assms
  by (auto simp add: fit_outcome recreate_basis_def alloc_def Let_def Filter_def
      split: sum.splits prod.splits)

theorem fit_recreates_basis_witness:
  "recreate_basis (demo_model, demo_heap) =
     (demo_model\<lparr>basis := 1\<rparr>, demo_heap @ [new_basis ''PrimitiveBasis'' 1 [0, 1]])
   \<and> basis demo_fitted_model = 1
   \<and> length demo_fitted_heap = 2
   \<and> take 1 demo_fitted_heap = demo_heap
   \<and> basis demo_fitted_model \<noteq> basis demo_model
   \<and> map_option f_basis (filter_attr demo_fitted_model) = Some 1"
  using fit_recreates_basis [OF demo_fit]
  by (simp add: demo_heap_def demo_model_def init_def)

text \<open>
  C2, as the specification states it, fails: in the fit above \<open>y\<close> has shape \<open>(2, 1)\<close>,
  so its shape without the sample axis is \<open>(1)\<close>, and the filter is built with the
  shape \<open>(1, 1)\<close>.
\<close>

theorem fit_filter_shape_not_spatial:
  "fst (fit demo_env demo_X demo_y None (demo_model, demo_heap)) = Inr ()
   \<and> map_option f_shape
        (filter_attr (fst (snd (fit demo_env demo_X demo_y None (demo_model, demo_heap)))))
       = Some [1, 1]
   \<and> map_option f_shape
        (filter_attr (fst (snd (fit demo_env demo_X demo_y None (demo_model, demo_heap)))))
       \<noteq> Some (tl (shape demo_y))"
  unfolding demo_fit by (simp add: demo_fitted_model_def demo_y_def)

text \<open>
  C2, amended. After a fit that succeeds, the filter holds the assembled kernel of the
  loop under a leading axis of length one, the basis object made at the start of the
  call, the job count of the model, and a shape of the rank of \<open>y\<close>: one leading
  entry, followed by the shape of \<open>y\<close> (after the optional reshape) without its sample
  axis. What the leading entry is, is left open here.
\<close>

theorem fit_filter_arguments:
  assumes "fit env X y sz (self, h) = (Inr (), self', h')"
  shows "\<exists>y1 X1 FX Fy b3 K e.
           fit_validate X y sz = Inr (y1, X1)
           \<and> fit_transforms env (new_basis (b_class (h ! basis self)) (n_states self) (domain self))
                 (n_jobs self) X1 y1 = (FX, Fy, b3)
           \<and> fit_kernel (lstsq env) (get_basis_slice env b3) FX Fy = Inr K
           \<and> filter_attr self' =
                Some \<lparr>Fkernel = K\<lparr>shape := 1 # shape K\<rparr>,
                      f_basis = length h,
                      f_shape = e # tl (shape y1),
                      f_n_jobs = n_jobs self\<rparr>
           \<and> basis self' = length h
           \<and> h' ! length h = b3"
  using assms
  by (auto simp add: fit_outcome Let_def Filter_def expand_dims_def drop_first_def
      split: sum.splits prod.splits)

theorem fit_filter_arguments_witness:
  "\<exists>y1 X1 FX Fy b3 K e.
     fit_validate demo_X demo_y None = Inr (y1, X1)
     \<and> fit_transforms demo_env
           (new_basis (b_class (demo_heap ! basis demo_model)) (n_states demo_model)
              (domain demo_model))
           (n_jobs demo_model) X1 y1 = (FX, Fy, b3)
     \<and> fit_kernel (lstsq demo_env) (get_basis_slice demo_env b3) FX Fy = Inr K
     \<and> filter_attr demo_fitted_model =
          Some \<lparr>Fkernel = K\<lparr>shape := 1 # shape K\<rparr>,
                f_basis = length demo_heap,
                f_shape = e # tl (shape y1),
                f_n_jobs = n_jobs demo_model\<rparr>
     \<and> basis demo_fitted_model = length demo_heap
     \<and> demo_fitted_heap ! length demo_heap = b3"
  by (rule fit_filter_arguments [OF demo_fit])

section \<open>Multi-indices and their offsets\<close>

lemma ravel_less: "valid_index shp idx \<Longrightarrow> ravel shp idx < prod_list shp"
  unfolding valid_index_def
proof (induction idx shp rule: list_all2_induct)
  case Nil
  then show ?case by simp
next
  case (Cons i js n ns)
  have "i * prod_list ns + ravel ns js < i * prod_list ns + prod_list ns"
    using Cons.IH by simp
  also have "\<dots> = Suc i * prod_list ns" by simp
  also have "\<dots> \<le> n * prod_list ns"
    using Cons.hyps(1) by (intro mult_le_mono1) simp
  finally show ?case by simp
qed

lemma ravel_inj:
  "valid_index shp i \<Longrightarrow> valid_index shp j \<Longrightarrow> ravel shp i = ravel shp j \<Longrightarrow> i = j"
proof (induction shp arbitrary: i j)
  case Nil
  then show ?case by (simp add: valid_index_def)
next
  case (Cons n ns)
  from Cons.prems(1) obtain a as where i: "i = a # as" and as: "valid_index ns as"
    by (auto simp add: valid_index_def list_all2_Cons2)
  from Cons.prems(2) obtain b bs where j: "j = b # bs" and bs: "valid_index ns bs"
    by (auto simp add: valid_index_def list_all2_Cons2)
  have la: "ravel ns as < prod_list ns" and lb: "ravel ns bs < prod_list ns"
    using as bs by (simp_all add: ravel_less)
  from Cons.prems(3) have eq: "a * prod_list ns + ravel ns as = b * prod_list ns + ravel ns bs"
    by (simp add: i j)
  have "(a * prod_list ns + ravel ns as) div prod_list ns = a" using la by simp
  moreover have "(b * prod_list ns + ravel ns bs) div prod_list ns = b" using lb by simp
  ultimately have ab: "a = b" using eq by simp
  with eq have "ravel ns as = ravel ns bs" by simp
  with Cons.IH [OF as bs] ab show ?case by (simp add: i j)
qed

lemma valid_index_snoc:
  "valid_index sp ijk \<Longrightarrow> s < ns \<Longrightarrow> valid_index (sp @ [ns]) (ijk @ [s])"
  by (simp add: valid_index_def list_all2_appendI)

text \<open>\<^verbatim>\<open>np.ndindex\<close> visits exactly the indices in range, in the order of their offsets.\<close>

lemma set_ndindex: "set (ndindex shp) = {idx. valid_index shp idx}"
proof (induction shp)
  case Nil
  then show ?case by (auto simp add: valid_index_def)
next
  case (Cons n ns)
  then show ?case
    by (auto simp add: valid_index_def list_all2_Cons2)
qed

lemma concat_blocks:
  "concat (map (\<lambda>i. map (\<lambda>r. i * P + r) [0..<P]) [0..<n]) = [0..<n * P]"
proof (induction n)
  case 0
  then show ?case by simp
next
  case (Suc n)
  have blk: "map (\<lambda>r. n * P + r) [0..<P] = [n * P..<n * P + P]"
    using map_add_upt [of "n * P" P] by (simp add: add.commute)
  have "concat (map (\<lambda>i. map (\<lambda>r. i * P + r) [0..<P]) [0..<Suc n])
          = [0..<n * P] @ [n * P..<n * P + P]"
    by (simp add: Suc blk)
  also have "\<dots> = [0..<n * P + P]"
    by (rule upt_add_eq_append [symmetric]) simp
  also have "n * P + P = Suc n * P" by simp
  finally show ?case .
qed

lemma ravel_ndindex: "map (ravel shp) (ndindex shp) = [0..<prod_list shp]"
proof (induction shp)
  case Nil
  then show ?case by simp
next
  case (Cons n ns)
  have "map (ravel (n # ns)) (ndindex (n # ns))
          = concat (map (\<lambda>i. map (\<lambda>r. i * prod_list ns + r) (map (ravel ns) (ndindex ns))) [0..<n])"
    by (simp add: map_concat comp_def)
  also have "\<dots> = [0..<n * prod_list ns]"
    by (simp only: Cons.IH concat_blocks)
  finally show ?case by simp
qed

lemma length_ndindex: "length (ndindex shp) = prod_list shp"
  using arg_cong [OF ravel_ndindex [of shp], of length] by simp

lemma nth_ndindex:
  assumes "valid_index shp idx"
  shows "ndindex shp ! ravel shp idx = idx"
proof -
  let ?k = "ravel shp idx"
  have k: "?k < length (ndindex shp)" using assms by (simp add: length_ndindex ravel_less)
  then have "ndindex shp ! ?k \<in> set (ndindex shp)" by simp
  then have v: "valid_index shp (ndindex shp ! ?k)" by (simp add: set_ndindex)
  have "map (ravel shp) (ndindex shp) ! ?k = ?k"
    using k by (simp only: ravel_ndindex) (simp add: length_ndindex)
  then have "ravel shp (ndindex shp ! ?k) = ?k" using k by simp
  from ravel_inj [OF v assms this] show ?thesis .
qed

lemma data_items:
  assumes "wf_array A"
  shows "map (item A) (ndindex (shape A)) = data A"
proof -
  have "map (item A) (ndindex (shape A))
          = map ((!) (data A)) (map (ravel (shape A)) (ndindex (shape A)))"
    by (simp add: item_def comp_def)
  also have "\<dots> = map ((!) (data A)) [0..<length (data A)]"
    using assms by (simp only: ravel_ndindex wf_array_def)
  also have "\<dots> = data A" by (rule map_nth)
  finally show ?thesis .
qed

subsection \<open>Reading and writing entries\<close>

lemma shape_setitem [simp]: "shape (setitem A idx v) = shape A"
  by (simp add: setitem_def)

lemma wf_setitem [simp]: "wf_array (setitem A idx v) = wf_array A"
  by (simp add: setitem_def wf_array_def)

lemma item_setitem:
  assumes "wf_array A" "valid_index (shape A) idx" "valid_index (shape A) idx'"
  shows "item (setitem A idx v) idx' = (if idx' = idx then v else item A idx')"
proof -
  have "ravel (shape A) idx < length (data A)"
    using assms(1,2) by (simp add: wf_array_def ravel_less)
  moreover have "idx' \<noteq> idx \<Longrightarrow> ravel (shape A) idx' \<noteq> ravel (shape A) idx"
    using ravel_inj [OF assms(3) assms(2)] by blast
  ultimately show ?thesis
    by (auto simp add: item_def setitem_def)
qed

lemma wf_zeros: "wf_array (zeros shp)"
  by (simp add: wf_array_def zeros_def)

lemma item_zeros: "valid_index shp idx \<Longrightarrow> item (zeros shp) idx = 0"
  by (simp add: item_def zeros_def ravel_less)

lemma write_all_Nil [simp]: "write_all K ijk [] = K"
  by (simp add: write_all_def)

lemma write_all_Cons [simp]:
  "write_all K ijk ((s, v) # ps) = write_all (setitem K (ijk @ [s]) v) ijk ps"
  by (simp add: write_all_def)

lemma write_all_shape [simp]: "shape (write_all K ijk ps) = shape K"
proof (induction ps arbitrary: K)
  case Nil
  then show ?case by simp
next
  case (Cons p ps)
  obtain s v where p: "p = (s, v)" by (cases p)
  show ?case by (simp add: p Cons.IH)
qed

lemma write_all_wf: "wf_array K \<Longrightarrow> wf_array (write_all K ijk ps)"
proof (induction ps arbitrary: K)
  case Nil
  then show ?case by simp
next
  case (Cons p ps)
  obtain s v where p: "p = (s, v)" by (cases p)
  have "wf_array (setitem K (ijk @ [s]) v)" using Cons.prems by simp
  from Cons.IH [OF this] show ?case by (simp add: p)
qed

text \<open>Writing a slice of a bin leaves every other entry alone, and puts the values at
  the selected local states in order.\<close>

lemma write_all_other:
  assumes "wf_array K" "\<forall>s \<in> fst ` set ps. valid_index (shape K) (ijk @ [s])"
      and "valid_index (shape K) idx" "idx \<notin> (\<lambda>s. ijk @ [s]) ` fst ` set ps"
  shows "item (write_all K ijk ps) idx = item K idx"
  using assms
proof (induction ps arbitrary: K)
  case Nil
  then show ?case by simp
next
  case (Cons p ps)
  obtain s v where p: "p = (s, v)" by (cases p)
  have 1: "wf_array (setitem K (ijk @ [s]) v)" using Cons.prems(1) by simp
  have 2: "\<forall>s' \<in> fst ` set ps. valid_index (shape (setitem K (ijk @ [s]) v)) (ijk @ [s'])"
    using Cons.prems(2) by simp
  have 3: "valid_index (shape (setitem K (ijk @ [s]) v)) idx" using Cons.prems(3) by simp
  have 4: "idx \<notin> (\<lambda>s. ijk @ [s]) ` fst ` set ps" using Cons.prems(4) by simp
  have 5: "valid_index (shape K) (ijk @ [s])" using Cons.prems(2) by (simp add: p)
  have 6: "idx \<noteq> ijk @ [s]" using Cons.prems(4) by (simp add: p)
  have "item (write_all (setitem K (ijk @ [s]) v) ijk ps) idx = item (setitem K (ijk @ [s]) v) idx"
    by (rule Cons.IH [OF 1 2 3 4])
  also have "\<dots> = item K idx"
    using 6 by (simp add: item_setitem [OF Cons.prems(1) 5 Cons.prems(3)])
  finally show ?case by (simp add: p)
qed

lemma write_all_nth:
  assumes "wf_array K" "\<forall>s \<in> set s1. valid_index (shape K) (ijk @ [s])"
      and "distinct s1" "length k = length s1" "p < length s1"
  shows "item (write_all K ijk (zip s1 k)) (ijk @ [s1 ! p]) = k ! p"
  using assms
proof (induction s1 arbitrary: K k p)
  case Nil
  then show ?case by simp
next
  case (Cons s s1)
  from Cons.prems(4) obtain v k' where k: "k = v # k'" and len: "length k' = length s1"
    by (cases k) auto
  let ?K = "setitem K (ijk @ [s]) v"
  have wf: "wf_array ?K" using Cons.prems(1) by simp
  have val: "\<forall>s' \<in> set s1. valid_index (shape ?K) (ijk @ [s'])"
    using Cons.prems(2) by simp
  have vs: "valid_index (shape K) (ijk @ [s])" using Cons.prems(2) by simp
  have dist: "distinct s1" and notin: "s \<notin> set s1" using Cons.prems(3) by simp_all
  show ?case
  proof (cases p)
    case 0
    have "item (write_all ?K ijk (zip s1 k')) (ijk @ [s]) = item ?K (ijk @ [s])"
    proof (rule write_all_other [OF wf])
      show "\<forall>s' \<in> fst ` set (zip s1 k'). valid_index (shape ?K) (ijk @ [s'])"
        using val by (auto dest: set_zip_leftD)
      show "valid_index (shape ?K) (ijk @ [s])" using vs by simp
      show "ijk @ [s] \<notin> (\<lambda>s. ijk @ [s]) ` fst ` set (zip s1 k')"
        using notin by (auto dest: set_zip_leftD)
    qed
    also have "\<dots> = v"
      by (simp add: item_setitem [OF Cons.prems(1) vs vs])
    finally show ?thesis by (simp add: k 0)
  next
    case (Suc q)
    have q: "q < length s1" using Cons.prems(5) Suc by simp
    have "item (write_all ?K ijk (zip s1 k')) (ijk @ [s1 ! q]) = k' ! q"
      by (rule Cons.IH [OF wf val dist len q])
    then show ?thesis by (simp add: k Suc)
  qed
qed

lemma write_all_item:
  assumes wf: "wf_array K" and shp: "shape K = sp @ [ns]"
      and b: "valid_index sp b" and rng: "\<forall>s \<in> set s1. s < ns"
      and dist: "distinct s1" and len: "length k = length s1"
      and ijk: "valid_index sp ijk" and s: "s < ns"
  shows "item (write_all K b (zip s1 k)) (ijk @ [s]) =
           (if ijk = b \<and> s \<in> set s1
            then (case map_of (zip s1 k) s of None \<Rightarrow> 0 | Some v \<Rightarrow> v)
            else item K (ijk @ [s]))"
proof (cases "ijk = b \<and> s \<in> set s1")
  case True
  then obtain p where p: "p < length s1" and sp: "s = s1 ! p"
    by (auto simp add: in_set_conv_nth)
  have val: "\<forall>s' \<in> set s1. valid_index (shape K) (b @ [s'])"
    using b rng by (simp add: shp valid_index_snoc)
  have "item (write_all K b (zip s1 k)) (b @ [s1 ! p]) = k ! p"
    by (rule write_all_nth [OF wf val dist len p])
  moreover have "map_of (zip s1 k) (s1 ! p) = Some (k ! p)"
    using len dist p by (intro map_of_zip_nth) simp_all
  ultimately show ?thesis using True by (simp add: sp)
next
  case False
  have val: "\<forall>s' \<in> fst ` set (zip s1 k). valid_index (shape K) (b @ [s'])"
    using b rng by (auto simp add: shp valid_index_snoc dest: set_zip_leftD)
  have vi: "valid_index (shape K) (ijk @ [s])"
    using ijk s by (simp add: shp valid_index_snoc)
  have notin: "ijk @ [s] \<notin> (\<lambda>s. b @ [s]) ` fst ` set (zip s1 k)"
    using False by (auto dest: set_zip_leftD)
  have "item (write_all K b (zip s1 k)) (ijk @ [s]) = item K (ijk @ [s])"
    by (rule write_all_other [OF wf val vi notin])
  then show ?thesis by (simp only: if_not_P [OF False])
qed

section \<open>The loop over the frequency bins\<close>

lemma bin_step_Inr:
  assumes "bin_step solver sl FX Fy b K0 = Inr K"
  obtains k where "solver (bin_matrix FX b (sl b)) (bin_rhs Fy b) = Inr k"
    and "length k = length (sl b)" and "K = write_all K0 b (zip (sl b) k)"
  using assms
  by (auto simp add: bin_step_def Let_def assign_slice_def split: sum.splits if_splits)

text \<open>
  What the loop has done after a list of bins: every bin of the list was solved, and
  an entry of the kernel is the solution of its bin if the bin is in the list and the
  local state in its slice, and is what it was before otherwise.
\<close>

lemma bin_loop_items:
  assumes "wf_array K0" "shape K0 = sp @ [ns]"
      and "\<forall>b \<in> set bs. valid_index sp b \<and> distinct (sl b) \<and> (\<forall>s \<in> set (sl b). s < ns)"
      and "bin_loop solver sl FX Fy bs K0 = Inr K"
  shows "wf_array K \<and> shape K = sp @ [ns]
         \<and> (\<forall>b \<in> set bs. \<exists>k. solver (bin_matrix FX b (sl b)) (bin_rhs Fy b) = Inr k
                                \<and> length k = length (sl b))
         \<and> (\<forall>ijk s. valid_index sp ijk \<longrightarrow> s < ns \<longrightarrow>
               item K (ijk @ [s]) =
                 (if ijk \<in> set bs \<and> s \<in> set (sl ijk) then bin_solution solver sl FX Fy ijk s
                  else item K0 (ijk @ [s])))"
  using assms
proof (induction bs arbitrary: K0)
  case Nil
  then show ?case by simp
next
  case (Cons b bs)
  from Cons.prems(4) obtain K1 where step: "bin_step solver sl FX Fy b K0 = Inr K1"
    and rest: "bin_loop solver sl FX Fy bs K1 = Inr K"
    by (auto split: sum.splits)
  from step obtain k where k: "solver (bin_matrix FX b (sl b)) (bin_rhs Fy b) = Inr k"
    and len: "length k = length (sl b)" and K1: "K1 = write_all K0 b (zip (sl b) k)"
    by (rule bin_step_Inr)
  have b: "valid_index sp b" "distinct (sl b)" "\<forall>s \<in> set (sl b). s < ns"
    using Cons.prems(3) by simp_all
  have wf1: "wf_array K1" using Cons.prems(1) by (simp add: K1 write_all_wf)
  have shp1: "shape K1 = sp @ [ns]" using Cons.prems(2) by (simp add: K1)
  have bs: "\<forall>b \<in> set bs. valid_index sp b \<and> distinct (sl b) \<and> (\<forall>s \<in> set (sl b). s < ns)"
    using Cons.prems(3) by simp
  note IH = Cons.IH [OF wf1 shp1 bs rest]
  have item1: "item K1 (ijk @ [s]) =
          (if ijk = b \<and> s \<in> set (sl b) then bin_solution solver sl FX Fy ijk s
           else item K0 (ijk @ [s]))"
    if "valid_index sp ijk" "s < ns" for ijk s
    unfolding K1
    by (subst write_all_item [OF Cons.prems(1) Cons.prems(2) b(1) b(3) b(2) len that])
       (simp add: bin_solution_def k)
  have items: "item K (ijk @ [s]) =
          (if ijk \<in> set (b # bs) \<and> s \<in> set (sl ijk) then bin_solution solver sl FX Fy ijk s
           else item K0 (ijk @ [s]))"
    if "valid_index sp ijk" "s < ns" for ijk s
  proof -
    have "item K (ijk @ [s]) =
            (if ijk \<in> set bs \<and> s \<in> set (sl ijk) then bin_solution solver sl FX Fy ijk s
             else item K1 (ijk @ [s]))"
      using IH that by blast
    then show ?thesis using item1 [OF that] by auto
  qed
  have solved: "\<forall>b' \<in> set (b # bs). \<exists>k. solver (bin_matrix FX b' (sl b')) (bin_rhs Fy b') = Inr k
                                \<and> length k = length (sl b')"
    using IH k len by simp
  from IH have "wf_array K" "shape K = sp @ [ns]" by simp_all
  with solved items show ?case by blast
qed

text \<open>The loop returns a kernel whenever the solver returns, for every bin, a solution
  with one coefficient per selected local state.\<close>

lemma bin_loop_succeeds:
  assumes "\<forall>b \<in> set bs. \<exists>k. solver (bin_matrix FX b (sl b)) (bin_rhs Fy b) = Inr k
                              \<and> length k = length (sl b)"
  shows "\<exists>K. bin_loop solver sl FX Fy bs K0 = Inr K"
  using assms
proof (induction bs arbitrary: K0)
  case Nil
  then show ?case by simp
next
  case (Cons b bs)
  then obtain k where k: "solver (bin_matrix FX b (sl b)) (bin_rhs Fy b) = Inr k"
    and len: "length k = length (sl b)" by auto
  have step: "bin_step solver sl FX Fy b K0 = Inr (write_all K0 b (zip (sl b) k))"
    by (simp add: bin_step_def k len assign_slice_def)
  from Cons.prems have "\<forall>b \<in> set bs. \<exists>k. solver (bin_matrix FX b (sl b)) (bin_rhs Fy b) = Inr k
                              \<and> length k = length (sl b)" by simp
  from Cons.IH [OF this] show ?case by (simp add: step)
qed

lemma fit_kernel_succeeds:
  assumes "shape FX = n # sp @ [ns]"
      and "\<forall>ijk. valid_index sp ijk \<longrightarrow>
             (\<exists>k. solver (bin_matrix FX ijk (sl ijk)) (bin_rhs Fy ijk) = Inr k
                   \<and> length k = length (sl ijk))"
  shows "\<exists>K. fit_kernel solver sl FX Fy = Inr K"
  unfolding fit_kernel_def
  by (rule bin_loop_succeeds) (use assms in \<open>simp add: set_ndindex\<close>)

subsection \<open>Least squares for one column\<close>

text \<open>
  The stand-in solver returns a least-squares solution: for a single column \<open>a\<close> the
  residual at \<open>z\<close> is the residual at \<open>k = \<langle>a, b\<rangle> / \<langle>a, a\<rangle>\<close> plus
  \<open>|z - k|\<^sup>2 |a|\<^sup>2\<close>, because \<open>a k - b\<close> is orthogonal to \<open>a\<close>.
\<close>

lemma cmod_sum_sq:
  "(cmod (x + y))\<^sup>2 = (cmod x)\<^sup>2 + (cmod y)\<^sup>2 + 2 * Re (cnj x * y)"
  unfolding cmod_power2 by (simp add: power2_eq_square algebra_simps)

lemma residual_single:
  assumes "list_all (\<lambda>row. length row = 1) A"
  shows "residual A b [z] =
           sum_list (map2 (\<lambda>row v. (cmod (hd row * z - v))\<^sup>2) A b)"
proof -
  have "\<And>row. row \<in> set A \<Longrightarrow> sum_list (map2 (*) row [z]) = hd row * z"
  proof -
    fix row assume "row \<in> set A"
    with assms have "length row = 1" by (simp add: list_all_iff)
    then obtain a where "row = [a]" by (cases row) auto
    then show "sum_list (map2 (*) row [z]) = hd row * z" by simp
  qed
  then have "map2 (\<lambda>row v. (cmod (sum_list (map2 (*) row [z]) - v))\<^sup>2) A b
           = map2 (\<lambda>row v. (cmod (hd row * z - v))\<^sup>2) A b"
    by (auto intro!: map_cong dest: set_zip_leftD)
  then show ?thesis unfolding residual_def by (rule arg_cong)
qed

lemma sum_sq_nonneg: "0 \<le> (\<Sum>(a, v)\<leftarrow>ps. (cmod a)\<^sup>2)"
  by (induction ps) auto

lemma sum_sq_zero:
  "(\<Sum>(a, v)\<leftarrow>ps. (cmod a)\<^sup>2) = 0 \<Longrightarrow> \<forall>(a, v) \<in> set ps. a = 0"
proof (induction ps)
  case Nil
  then show ?case by simp
next
  case (Cons p ps)
  obtain a v where p: "p = (a, v)" by (cases p)
  from Cons.prems have sum: "(cmod a)\<^sup>2 + (\<Sum>(a, v)\<leftarrow>ps. (cmod a)\<^sup>2) = 0" by (simp add: p)
  have "0 \<le> (cmod a)\<^sup>2" by simp
  with sum sum_sq_nonneg [of ps] have "(cmod a)\<^sup>2 = 0" "(\<Sum>(a, v)\<leftarrow>ps. (cmod a)\<^sup>2) = 0"
    by linarith+
  with Cons.IH show ?case by (simp add: p)
qed

lemma cross_sum:
  "(\<Sum>(a, v)\<leftarrow>ps. cnj a * (a * c - v))
     = (\<Sum>(a, v)\<leftarrow>ps. cnj a * a) * c - (\<Sum>(a, v)\<leftarrow>ps. cnj a * v)"
  by (induction ps) (auto simp add: algebra_simps)

lemma residual_shift:
  "(\<Sum>(a, v)\<leftarrow>ps. (cmod (a * z - v))\<^sup>2) =
     (\<Sum>(a, v)\<leftarrow>ps. (cmod (a * c - v))\<^sup>2)
     + (\<Sum>(a, v)\<leftarrow>ps. (cmod a)\<^sup>2) * (cmod (z - c))\<^sup>2
     + 2 * Re (cnj (z - c) * (\<Sum>(a, v)\<leftarrow>ps. cnj a * (a * c - v)))"
proof -
  have each: "(cmod (a * z - v))\<^sup>2 =
                (cmod (a * c - v))\<^sup>2 + (cmod a)\<^sup>2 * (cmod (z - c))\<^sup>2
                + 2 * Re (cnj (z - c) * (cnj a * (a * c - v)))" for a v
  proof -
    have e: "a * z - v = a * (z - c) + (a * c - v)" by (simp add: algebra_simps)
    have "(cmod (a * z - v))\<^sup>2 = (cmod (a * (z - c) + (a * c - v)))\<^sup>2"
      by (simp only: e)
    also have "\<dots> = (cmod (a * (z - c)))\<^sup>2 + (cmod (a * c - v))\<^sup>2
                     + 2 * Re (cnj (a * (z - c)) * (a * c - v))"
      by (rule cmod_sum_sq)
    also have "(cmod (a * (z - c)))\<^sup>2 = (cmod a)\<^sup>2 * (cmod (z - c))\<^sup>2"
      by (simp add: norm_mult power_mult_distrib)
    also have "cnj (a * (z - c)) * (a * c - v) = cnj (z - c) * (cnj a * (a * c - v))"
      by simp
    finally show ?thesis by simp
  qed
  show ?thesis
  proof (induction ps)
    case Nil
    then show ?case by simp
  next
    case (Cons p ps)
    obtain a v where p: "p = (a, v)" by (cases p)
    show ?case
      unfolding p by (simp add: Cons.IH each [of a v] algebra_simps)
  qed
qed

lemma column_optimal:
  fixes ps :: "(complex \<times> complex) list"
  defines "s \<equiv> (\<Sum>(a, v)\<leftarrow>ps. cnj a * v)"
      and "t \<equiv> (\<Sum>(a, v)\<leftarrow>ps. cnj a * a)"
  shows "(\<Sum>(a, v)\<leftarrow>ps. (cmod (a * (s / t) - v))\<^sup>2) \<le> (\<Sum>(a, v)\<leftarrow>ps. (cmod (a * z - v))\<^sup>2)"
proof -
  let ?k = "s / t"
  have sq: "cnj a * a = of_real ((cmod a)\<^sup>2)" for a :: complex
    by (metis complex_norm_square mult.commute)
  have t_real: "t = of_real (\<Sum>(a, v)\<leftarrow>ps. (cmod a)\<^sup>2)"
    unfolding t_def
    by (induction ps) (auto simp add: sq)
  have cross0: "(\<Sum>(a, v)\<leftarrow>ps. cnj a * (a * ?k - v)) = 0"
  proof (cases "t = 0")
    case True
    then have "(\<Sum>(a, v)\<leftarrow>ps. (cmod a)\<^sup>2) = 0" using t_real by simp
    then have "\<forall>(a, v) \<in> set ps. a = 0" by (rule sum_sq_zero)
    then show ?thesis by (induction ps) auto
  next
    case False
    have "(\<Sum>(a, v)\<leftarrow>ps. cnj a * (a * ?k - v)) = t * ?k - s"
      unfolding s_def t_def by (rule cross_sum)
    then show ?thesis using False by simp
  qed
  have nonneg: "0 \<le> (\<Sum>(a, v)\<leftarrow>ps. (cmod a)\<^sup>2) * (cmod (z - ?k))\<^sup>2"
    by (intro mult_nonneg_nonneg sum_sq_nonneg) simp
  have "(\<Sum>(a, v)\<leftarrow>ps. (cmod (a * z - v))\<^sup>2) =
          (\<Sum>(a, v)\<leftarrow>ps. (cmod (a * ?k - v))\<^sup>2)
          + (\<Sum>(a, v)\<leftarrow>ps. (cmod a)\<^sup>2) * (cmod (z - ?k))\<^sup>2
          + 2 * Re (cnj (z - ?k) * 0)"
    by (simp only: residual_shift [where ps = ps and z = z and c = "?k"] cross0)
  also have "\<dots> = (\<Sum>(a, v)\<leftarrow>ps. (cmod (a * ?k - v))\<^sup>2)
          + (\<Sum>(a, v)\<leftarrow>ps. (cmod a)\<^sup>2) * (cmod (z - ?k))\<^sup>2"
    by simp
  finally show ?thesis using nonneg by linarith
qed

lemma sum_zip_hd:
  "(\<Sum>(row, v)\<leftarrow>zip A b. f (hd row) v) = (\<Sum>(a, v)\<leftarrow>zip (map hd A) b. f a v)"
  by (simp add: zip_map1 comp_def case_prod_unfold)

lemma sum_zip_left:
  assumes "length xs = length ys"
  shows "(\<Sum>(a, v)\<leftarrow>zip xs ys. f a) = (\<Sum>a\<leftarrow>xs. f a)"
proof -
  have "map (\<lambda>(a, v). f a) (zip xs ys) = map f (map fst (zip xs ys))"
    by (simp add: comp_def case_prod_unfold)
  also have "\<dots> = map f xs" using assms by simp
  finally show ?thesis by simp
qed

lemma demo_lstsq_least_squares:
  assumes "demo_lstsq A b = Inr k"
  shows "least_squares_solution A b k"
proof -
  let ?ps = "zip (map hd A) b"
  let ?s = "\<Sum>(a, v)\<leftarrow>?ps. cnj a * v"
  let ?t = "\<Sum>(a, v)\<leftarrow>?ps. cnj a * a"
  from assms have cols: "list_all (\<lambda>row. length row = 1) A" and len: "length A = length b"
    by (auto simp add: demo_lstsq_def split: if_splits)
  have s: "sum_list (map2 (\<lambda>row v. cnj (hd row) * v) A b) = ?s"
    by (rule sum_zip_hd)
  have "?t = (\<Sum>a\<leftarrow>map hd A. cnj a * a)"
    using len by (intro sum_zip_left) simp
  then have t: "sum_list (map (\<lambda>row. cnj (hd row) * hd row) A) = ?t"
    by (simp add: comp_def)
  from assms have k: "k = [?s / ?t]"
    using cols len by (simp add: demo_lstsq_def s t)
  have res: "residual A b [z] = (\<Sum>(a, v)\<leftarrow>?ps. (cmod (a * z - v))\<^sup>2)" for z
    unfolding residual_single [OF cols] by (rule sum_zip_hd)
  show ?thesis
    unfolding least_squares_solution_def
  proof (intro allI impI)
    fix k' :: "complex list"
    assume "length k' = length k"
    then obtain z where k': "k' = [z]" by (cases k') (auto simp add: k)
    show "residual A b k \<le> residual A b k'"
      unfolding k k' res by (rule column_optimal)
  qed
qed

subsection \<open>The kernel that the loop assembles\<close>

text \<open>
  C1. Let \<open>FX\<close> have shape \<open>(n, spatial..., ns)\<close> and \<open>Fy\<close> shape \<open>(n, spatial...)\<close>, let
  the basis select at every bin distinct local states below \<open>ns\<close>, let the solver
  return least-squares solutions, and let the loop of \<^verbatim>\<open>fit\<close> return the kernel \<open>K\<close>.
  Then \<open>K\<close> has shape \<open>(spatial..., ns)\<close>, and for every multi-index \<open>ijk\<close> of the
  spatial axes: the entries of \<open>K\<close> at \<open>ijk\<close> and the selected local states are what
  the solver returned for the system whose matrix has the entries \<open>FX[m, ijk, s]\<close>,
  one row per sample \<open>m\<close> and one column per selected local state \<open>s\<close>, and whose
  right-hand side has the entries \<open>Fy[m, ijk]\<close>; they are a least-squares solution of
  that system; and the entries of \<open>K\<close> at \<open>ijk\<close> and every other local state are zero.
\<close>

theorem fit_kernel_bins:
  assumes FX: "shape FX = n # sp @ [ns]" and Fy: "shape Fy = n # sp"
      and slices: "\<forall>b. valid_index sp b \<longrightarrow> distinct (sl b) \<and> (\<forall>s \<in> set (sl b). s < ns)"
      and contract: "\<forall>A b k. solver A b = Inr k \<longrightarrow> least_squares_solution A b k"
      and fit: "fit_kernel solver sl FX Fy = Inr K"
      and bin: "valid_index sp ijk"
  shows "shape K = sp @ [ns]
         \<and> solver (map (\<lambda>m. map (\<lambda>s. item FX (m # ijk @ [s])) (sl ijk)) [0..<n])
                  (map (\<lambda>m. item Fy (m # ijk)) [0..<n])
             = Inr (map (\<lambda>s. item K (ijk @ [s])) (sl ijk))
         \<and> least_squares_solution
              (map (\<lambda>m. map (\<lambda>s. item FX (m # ijk @ [s])) (sl ijk)) [0..<n])
              (map (\<lambda>m. item Fy (m # ijk)) [0..<n])
              (map (\<lambda>s. item K (ijk @ [s])) (sl ijk))
         \<and> (\<forall>s<ns. s \<notin> set (sl ijk) \<longrightarrow> item K (ijk @ [s]) = 0)"
proof -
  let ?A = "map (\<lambda>m. map (\<lambda>s. item FX (m # ijk @ [s])) (sl ijk)) [0..<n]"
  let ?b = "map (\<lambda>m. item Fy (m # ijk)) [0..<n]"
  let ?k = "map (\<lambda>s. item K (ijk @ [s])) (sl ijk)"
  have A: "bin_matrix FX ijk (sl ijk) = ?A" by (simp add: bin_matrix_def FX)
  have b: "bin_rhs Fy ijk = ?b" by (simp add: bin_rhs_def Fy)
  have loop: "bin_loop solver sl FX Fy (ndindex sp) (zeros (sp @ [ns])) = Inr K"
    using fit by (simp add: fit_kernel_def FX)
  have z: "shape (zeros (sp @ [ns]) :: complex ndarray) = sp @ [ns]"
    by (simp add: zeros_def)
  have bs: "\<forall>b \<in> set (ndindex sp).
              valid_index sp b \<and> distinct (sl b) \<and> (\<forall>s \<in> set (sl b). s < ns)"
    using slices by (simp add: set_ndindex)
  note inv = bin_loop_items [OF wf_zeros z bs loop]
  from inv have shp: "shape K = sp @ [ns]" by simp
  from inv bin obtain k where k: "solver (bin_matrix FX ijk (sl ijk)) (bin_rhs Fy ijk) = Inr k"
    and len: "length k = length (sl ijk)"
    by (auto simp add: set_ndindex)
  have dist: "distinct (sl ijk)" and rng: "\<forall>s \<in> set (sl ijk). s < ns"
    using slices bin by simp_all
  have item: "item K (ijk @ [s]) =
                (if s \<in> set (sl ijk) then bin_solution solver sl FX Fy ijk s else 0)"
    if "s < ns" for s
  proof -
    have "item K (ijk @ [s]) =
            (if ijk \<in> set (ndindex sp) \<and> s \<in> set (sl ijk)
             then bin_solution solver sl FX Fy ijk s
             else item (zeros (sp @ [ns])) (ijk @ [s]))"
      using inv bin that by blast
    then show ?thesis
      using bin that by (simp add: set_ndindex item_zeros valid_index_snoc)
  qed
  have "?k = k"
  proof (rule nth_equalityI)
    show "length ?k = length k" by (simp add: len)
  next
    fix p assume "p < length ?k"
    then have p: "p < length (sl ijk)" by simp
    then have "sl ijk ! p < ns" "sl ijk ! p \<in> set (sl ijk)" using rng by simp_all
    moreover have "map_of (zip (sl ijk) k) (sl ijk ! p) = Some (k ! p)"
      using len dist p by (intro map_of_zip_nth) simp_all
    ultimately show "?k ! p = k ! p"
      using p by (simp add: item bin_solution_def k)
  qed
  with k have solved: "solver ?A ?b = Inr ?k" by (simp only: A b)
  with contract have "least_squares_solution ?A ?b ?k" by blast
  moreover have "\<forall>s<ns. s \<notin> set (sl ijk) \<longrightarrow> item K (ijk @ [s]) = 0"
    by (simp add: item)
  ultimately show ?thesis using shp solved by blast
qed

text \<open>The loop on two samples, two bins and two local states. At the first bin the
  slice selects the first local state and the solution of \<open>(1, 2) k = (3, 6)\<close> is 3; at
  the second bin it selects the second local state and the solution of
  \<open>(2, 3) k = (4, 6)\<close> is 2; the other two entries stay zero.\<close>

lemma demo_kernel:
  "fit_kernel demo_lstsq demo_slice demo_FX demo_Fy
     = Inr \<lparr>shape = [2, 2], data = [3, 0, 0, 2]\<rparr>"
  by (simp add: fit_kernel_def demo_FX_def demo_Fy_def demo_slice_def bin_step_def bin_matrix_def
      bin_rhs_def item_def demo_lstsq_def assign_slice_def write_all_def setitem_def zeros_def
      upt_conv_Cons numeral_2_eq_2)

theorem fit_kernel_bins_witness:
  "fit_kernel demo_lstsq demo_slice demo_FX demo_Fy = Inr \<lparr>shape = [2, 2], data = [3, 0, 0, 2]\<rparr>
   \<and> demo_lstsq [[1], [2]] [3, 6] = Inr [3]
   \<and> least_squares_solution [[1], [2]] [3, 6] [3]
   \<and> item \<lparr>shape = [2, 2], data = [3, 0, 0, 2 :: complex]\<rparr> [0, 1] = 0
   \<and> demo_lstsq [[2], [3]] [4, 6] = Inr [2]
   \<and> least_squares_solution [[2], [3]] [4, 6] [2]
   \<and> item \<lparr>shape = [2, 2], data = [3, 0, 0, 2 :: complex]\<rparr> [1, 0] = 0
   \<and> map (\<lambda>m. item demo_FX [m, 1, 1]) [0, 1] = [2, 3]
   \<and> map (\<lambda>m. item demo_Fy [m, 1]) [0, 1] = [4, 6]"
proof -
  have FX: "shape demo_FX = 2 # [2] @ [2]" by (simp add: demo_FX_def)
  have Fy: "shape demo_Fy = 2 # [2]" by (simp add: demo_Fy_def)
  have sl: "\<forall>b. valid_index [2] b \<longrightarrow>
              distinct (demo_slice b) \<and> (\<forall>s \<in> set (demo_slice b). s < 2)"
    by (simp add: demo_slice_def)
  have contract: "\<forall>A b k. demo_lstsq A b = Inr k \<longrightarrow> least_squares_solution A b k"
    by (simp add: demo_lstsq_least_squares)
  have bin0: "valid_index [2] [0]" and bin1: "valid_index [2] [1]"
    by (simp_all add: valid_index_def)
  from fit_kernel_bins [OF FX Fy sl contract demo_kernel bin0]
       fit_kernel_bins [OF FX Fy sl contract demo_kernel bin1] demo_kernel
  show ?thesis
    by (simp add: demo_slice_def demo_FX_def demo_Fy_def item_def upt_conv_Cons numeral_2_eq_2)
qed

section \<open>Resizing the kernel\<close>

lemma shape_resize_array [simp]: "shape (resize_array shp A) = shp"
  by (simp add: resize_array_def)

lemma wf_resize_array: "wf_array (resize_array shp A)"
  by (simp add: resize_array_def wf_array_def length_ndindex)

lemma item_resize_array:
  assumes "valid_index shp idx"
  shows "item (resize_array shp A) idx =
           (case index_source (shape A) shp idx of None \<Rightarrow> 0 | Some src \<Rightarrow> item A src)"
proof -
  have "ravel shp idx < length (ndindex shp)"
    using assms by (simp add: length_ndindex ravel_less)
  then have "data (resize_array shp A) ! ravel shp idx =
               (case index_source (shape A) shp idx of None \<Rightarrow> 0 | Some src \<Rightarrow> item A src)"
    by (simp add: resize_array_def nth_ndindex [OF assms])
  then show ?thesis
    unfolding item_def [of "resize_array shp A"] by simp
qed

text \<open>The placement of the doctest of \<^verbatim>\<open>resize_coeff\<close>: a 5 by 4 kernel with the
  entries 0 to 19, resized to 10 by 7.\<close>

lemma resize_doctest:
  "data (resize_kernel [10, 7] \<lparr>shape = [1, 5, 4, 1], data = map int [0..<20]\<rparr>) =
     [0, 0, 0, 0, 0, 0, 0,
      0, 0, 0, 0, 0, 0, 0,
      0, 0, 0, 0, 0, 0, 0,
      0, 0, 0, 1, 2, 3, 0,
      0, 0, 4, 5, 6, 7, 0,
      0, 0, 8, 9, 10, 11, 0,
      0, 0, 12, 13, 14, 15, 0,
      0, 0, 16, 17, 18, 19, 0,
      0, 0, 0, 0, 0, 0, 0,
      0, 0, 0, 0, 0, 0, 0]"
  by code_simp

text \<open>Along one axis, and then along all of them: an index of the smaller array is
  taken, in the larger array, from an index inside it that is taken from the first.\<close>

lemma axis_round_trip:
  assumes "S \<le> B" "j < S"
  shows "\<exists>i. axis_source B S j = Some i \<and> i < B \<and> axis_source S B i = Some j"
proof (cases "S = B")
  case True
  then show ?thesis using assms by (simp add: axis_source_def pad_before_def)
next
  case False
  with assms have lt: "S < B" by simp
  have p: "pad_before S B \<le> B - S" by (simp add: pad_before_def)
  have "axis_source B S j = Some (j + pad_before S B)"
    using lt by (simp add: axis_source_def)
  moreover have "j + pad_before S B < B" using p assms lt by simp
  moreover have "axis_source S B (j + pad_before S B) = Some j"
    using assms by (simp add: axis_source_def)
  ultimately show ?thesis by simp
qed

lemma index_round_trip:
  assumes "list_all2 (\<le>) S B" "valid_index S idx"
  shows "\<exists>src. index_source B S idx = Some src \<and> valid_index B src
               \<and> index_source S B src = Some idx"
  using assms
proof (induction S B arbitrary: idx rule: list_all2_induct)
  case Nil
  then show ?case by (simp add: valid_index_def)
next
  case (Cons s S b B)
  from Cons.prems obtain j js where idx: "idx = j # js" and j: "j < s" and js: "valid_index S js"
    by (auto simp add: valid_index_def list_all2_Cons2)
  from axis_round_trip [OF Cons.hyps(1) j] obtain i
    where i: "axis_source b s j = Some i" "i < b" "axis_source s b i = Some j" by blast
  from Cons.IH [OF js] obtain src
    where src: "index_source B S js = Some src" "valid_index B src" "index_source S B src = Some js"
    by blast
  have "index_source (b # B) (s # S) idx = Some (i # src)" by (simp add: idx i src)
  moreover have "valid_index (b # B) (i # src)" using i src by (simp add: valid_index_def)
  moreover have "index_source (s # S) (b # B) (i # src) = Some idx" by (simp add: idx i src)
  ultimately show ?case by blast
qed

lemma resize_array_round_trip:
  assumes wf: "wf_array k" and le: "list_all2 (\<le>) (shape k) B"
  shows "resize_array (shape k) (resize_array B k) = k"
proof -
  have "(case index_source B (shape k) idx of
           None \<Rightarrow> 0
         | Some src \<Rightarrow> item (resize_array B k) src) = item k idx"
    if "idx \<in> set (ndindex (shape k))" for idx
  proof -
    from that have v: "valid_index (shape k) idx" by (simp add: set_ndindex)
    from index_round_trip [OF le v] obtain src
      where src: "index_source B (shape k) idx = Some src" "valid_index B src"
        "index_source (shape k) B src = Some idx" by blast
    show ?thesis by (simp add: src item_resize_array [OF src(2)])
  qed
  then have "map (\<lambda>idx. case index_source B (shape k) idx of
                          None \<Rightarrow> 0
                        | Some src \<Rightarrow> item (resize_array B k) src) (ndindex (shape k))
               = map (item k) (ndindex (shape k))"
    by (intro map_cong) simp_all
  then have "data (resize_array (shape k) (resize_array B k)) = map (item k) (ndindex (shape k))"
    by (simp add: resize_array_def [of "shape k"])
  also have "\<dots> = data k" by (rule data_items [OF wf])
  finally show ?thesis by (simp add: ndarray.equality)
qed

lemma resize_kernel_round_trip:
  assumes wf: "wf_array k" and shp: "shape k = n0 # S @ [ns]" and le: "list_all2 (\<le>) S B"
  shows "resize_kernel S (resize_kernel B k) = k"
proof -
  have "list_all2 (\<le>) (shape k) (n0 # B @ [ns])"
    using le by (simp add: shp list_all2_appendI)
  from resize_array_round_trip [OF wf this]
  show ?thesis by (simp add: resize_kernel_def shp)
qed

text \<open>
  C7. Take a fitted model whose centred real-space kernel has shape
  \<open>(n0, S..., ns)\<close>, and a size \<open>B\<close> that is on every axis at least \<open>S\<close> (a strictly
  larger \<open>B\<close> in particular). Let the filter's transforms be exact where the two calls
  use them: the inverse transform of the kernel stored by the first resize is the
  padded kernel, and the forward transform of the original real-space kernel is the
  stored kernel. Then \<^verbatim>\<open>resize_coeff(B)\<close> returns, and \<^verbatim>\<open>resize_coeff(S)\<close> after it
  returns and leaves the model, its stored kernel included, and the store exactly as
  they were; so \<open>coeff\<close> is what it was.
\<close>

theorem resize_coeff_round_trip:
  assumes fitted: "filter_attr self = Some f"
      and inv: "frequency_2_real env (filter_resize env B f)
                  = resize_kernel B (frequency_2_real env f)"
      and fwd: "real_2_frequency env (frequency_2_real env f) = Fkernel f"
      and wf: "wf_array (frequency_2_real env f)"
      and shp: "shape (frequency_2_real env f) = n0 # S @ [ns]"
      and bigger: "list_all2 (\<le>) S B"
  shows "fst (resize_coeff env B (self, h)) = Inr ()
         \<and> resize_coeff env S (snd (resize_coeff env B (self, h))) = (Inr (), self, h)
         \<and> coeff env (fst (snd (resize_coeff env S (snd (resize_coeff env B (self, h))))))
             = coeff env self"
proof -
  let ?f1 = "filter_resize env B f"
  have 1: "resize_coeff env B (self, h) = (Inr (), self\<lparr>filter_attr := Some ?f1\<rparr>, h)"
    by (simp add: resize_coeff_def fitted)
  have "resize_kernel S (frequency_2_real env ?f1) = frequency_2_real env f"
    unfolding inv by (rule resize_kernel_round_trip [OF wf shp bigger])
  then have "filter_resize env S ?f1 = ?f1\<lparr>Fkernel := Fkernel f\<rparr>"
    by (simp add: filter_resize_def [of env S] fwd)
  also have "\<dots> = f" by (simp add: filter_resize_def)
  finally have "filter_resize env S ?f1 = f" .
  then have 2: "resize_coeff env S (self\<lparr>filter_attr := Some ?f1\<rparr>, h) = (Inr (), self, h)"
    using fitted by (simp add: resize_coeff_def)
  show ?thesis by (simp add: 1 2)
qed

text \<open>A kernel on two spatial points, resized to five and back. The stand-in transforms
  are exact inverses of each other; the kernel padded to five points is
  \<open>0, 0, 1, 2, 0\<close>.\<close>

lemma demo_transforms:
  "frequency_2_real demo_env (g\<lparr>Fkernel := real_2_frequency demo_env k\<rparr>) = k"
  by (simp add: demo_env_def comp_def)

lemma demo_padded:
  "resize_kernel [5] (frequency_2_real demo_env demo_filter)
     = \<lparr>shape = [1, 5, 1], data = [0, 0, 1, 2, 0]\<rparr>"
  by (simp add: demo_env_def demo_filter_def resize_kernel_def resize_array_def axis_source_def
      pad_before_def item_def upt_conv_Cons)

theorem resize_coeff_round_trip_witness:
  "fst (resize_coeff demo_env [5] (demo_model\<lparr>filter_attr := Some demo_filter\<rparr>, demo_heap))
     = Inr ()
   \<and> resize_coeff demo_env [2]
        (snd (resize_coeff demo_env [5]
                (demo_model\<lparr>filter_attr := Some demo_filter\<rparr>, demo_heap)))
       = (Inr (), demo_model\<lparr>filter_attr := Some demo_filter\<rparr>, demo_heap)"
proof -
  have fitted: "filter_attr (demo_model\<lparr>filter_attr := Some demo_filter\<rparr>) = Some demo_filter"
    by simp
  have inv: "frequency_2_real demo_env (filter_resize demo_env [5] demo_filter)
               = resize_kernel [5] (frequency_2_real demo_env demo_filter)"
    unfolding filter_resize_def by (rule demo_transforms)
  have fwd: "real_2_frequency demo_env (frequency_2_real demo_env demo_filter)
               = Fkernel demo_filter"
    by (simp add: demo_env_def demo_filter_def)
  have wf: "wf_array (frequency_2_real demo_env demo_filter)"
    by (simp add: demo_env_def demo_filter_def wf_array_def)
  have shp: "shape (frequency_2_real demo_env demo_filter) = 1 # [2] @ [1]"
    by (simp add: demo_env_def demo_filter_def)
  have bigger: "list_all2 (\<le>) [2 :: nat] [5]" by simp
  from resize_coeff_round_trip [OF fitted inv fwd wf shp bigger, of demo_heap]
  show ?thesis by simp
qed

end
